theory Spec2Isabelle
  imports Complex_Main "HOL-Library.Word"
begin

section \<open>Cache-aware benchmarks: a shallow embedding\<close>

text \<open>
  The repository holds five small C++ benchmark programs: cache-line alignment of an array
  of structs, false sharing between two threads, array-of-structs against struct-of-arrays,
  heap against pool allocation, and local against remote NUMA access. Each program is
  embedded below as HOL functions, one per C++ function, with the same names.

  Conventions of the embedding:
  \<^item> \<open>int\<close> is a 32-bit word, \<open>long long\<close> a 64-bit word, \<open>char\<close> an 8-bit word; \<open>+\<close>
    wraps around as the machine addition does.
  \<^item> A \<open>size_t\<close> loop counter that runs from 0 up to a bound is a natural number: it stops
    at the bound, so it never wraps.
  \<^item> A pointer to an array is the list of the elements it points to; a read outside the
    list is the fault \<open>OutOfBounds\<close>, a use of the null pointer the fault \<open>NullPointer\<close>.
  \<^item> The clock, the platform allocators and the thread scheduler are outside the programs:
    clock readings (as elapsed milliseconds), allocator results and the schedule are
    parameters of the functions that use them.
  \<^item> The order of the effects of a function (allocation, timer, access pattern, output) is
    recorded as a list of events.
  \<^item> Text printed by the programs is kept without its leading pictograph.
\<close>

subsection \<open>Machine types, faults, events and loops\<close>

type_synonym int32 = "32 word"
type_synonym int64 = "64 word"
type_synonym byte = "8 word"

datatype fault = OutOfBounds | NullPointer | NotLive

datatype event =
    Print string | PrintErr string
  | Acquire | Release | Memset
  | TimerStart | TimerStop | Pattern
  | BindNode nat | Spawn nat | Join nat
  | Construct nat | Destruct nat

text \<open>How a program run ends: \<open>main\<close> returns a code, or the process is aborted (a failed
  \<open>assert\<close>, an exception nobody catches), or it runs into undefined behaviour.\<close>

datatype status = Returned int | Aborted | Undefined fault

record run =
  status :: status
  events :: "event list"

text \<open>What a benchmark prints about one variant: its label, the elapsed milliseconds and
  the accumulated sum, together with the events of the call in their order.\<close>

record 'a printed =
  printed_label :: string
  printed_ms :: int
  printed_sum :: 'a
  trace :: "event list"

definition bind_res :: "fault + 'a \<Rightarrow> ('a \<Rightarrow> fault + 'b) \<Rightarrow> fault + 'b" where
  "bind_res r f = (case r of Inl e \<Rightarrow> Inl e | Inr v \<Rightarrow> f v)"

text \<open>\<open>for (size_t i = 0; i < n; ++i) body\<close>, on a body that may fault: the first fault ends
  the loop.\<close>

definition for_loop :: "nat \<Rightarrow> (nat \<Rightarrow> 's \<Rightarrow> fault + 's) \<Rightarrow> 's \<Rightarrow> fault + 's" where
  "for_loop n body s = fold (\<lambda>i r. bind_res r (body i)) [0..<n] (Inr s)"

definition read_elem :: "'a list \<Rightarrow> nat \<Rightarrow> fault + 'a" where
  "read_elem xs i = (if i < length xs then Inr (xs ! i) else Inl OutOfBounds)"

text \<open>The events that happen while a timer is running: those after a \<open>TimerStart\<close> and before
  the next \<open>TimerStop\<close>. The flag says whether the timer is running at the head of the list.\<close>

fun timed :: "bool \<Rightarrow> event list \<Rightarrow> event list" where
  "timed running [] = []"
| "timed running (TimerStart # es) = timed True es"
| "timed running (TimerStop # es) = timed False es"
| "timed running (e # es) = (if running then e # timed running es else timed running es)"

fun untimed :: "bool \<Rightarrow> event list \<Rightarrow> event list" where
  "untimed running [] = []"
| "untimed running (TimerStart # es) = untimed True es"
| "untimed running (TimerStop # es) = untimed False es"
| "untimed running (e # es) = (if running then untimed running es else e # untimed running es)"

definition is_alloc :: "event \<Rightarrow> bool" where
  "is_alloc e = (e = Acquire \<or> e = Release)"

text \<open>
  The order of an experiment that keeps allocation out of the measurement: blocks are
  acquired, then the timer is started, the access pattern runs (threads that are spawned
  are spawned after the start and joined before the stop), the timer is stopped (a program
  may time several patterns in turn), and only then blocks are released. The recogniser
  walks the events from the phase reached so far and gives the phase reached at the end,
  or nothing as soon as an event is out of order; events other than these do not matter.
  A run is sequenced when it goes all the way from \<open>Idle\<close>, before any acquisition, to
  \<open>Releasing\<close>: it acquires, it times a pattern, and it releases, in this order.
\<close>

datatype phase = Idle | Acquiring | Timing | Accessed | Stopped | Releasing

fun walk :: "phase \<Rightarrow> event list \<Rightarrow> phase option" where
  "walk ph [] = Some ph"
| "walk ph (Acquire # es) = (if ph = Idle \<or> ph = Acquiring then walk Acquiring es else None)"
| "walk ph (TimerStart # es) = (if ph = Acquiring \<or> ph = Stopped then walk Timing es else None)"
| "walk ph (Spawn k # es) = (if ph = Timing then walk Timing es else None)"
| "walk ph (Join k # es) = (if ph = Timing \<or> ph = Accessed then walk Accessed es else None)"
| "walk ph (Pattern # es) = (if ph = Timing then walk Accessed es else None)"
| "walk ph (TimerStop # es) = (if ph = Accessed then walk Stopped es else None)"
| "walk ph (Release # es) = (if ph = Stopped \<or> ph = Releasing then walk Releasing es else None)"
| "walk ph (e # es) = walk ph es"

definition sequenced :: "event list \<Rightarrow> bool" where
  "sequenced es = (walk Idle es = Some Releasing)"

subsection \<open>Struct layout\<close>

text \<open>
  The layout rule of the platform ABI for a struct of plain members: each member, given as
  (size, alignment), goes to the next multiple of its alignment; the struct's alignment is
  the largest member alignment, or the one \<open>alignas\<close> requests if larger; its size is the end
  of the last member rounded up to the struct's alignment. \<open>sizeof(int)\<close> is 4, as the
  comments of the sources say (\<open>int data[16]; // 64 bytes\<close>).
\<close>

definition align_up :: "nat \<Rightarrow> nat \<Rightarrow> nat" where
  "align_up a n = ((n + a - 1) div a) * a"

fun member_offsets :: "nat \<Rightarrow> (nat \<times> nat) list \<Rightarrow> nat list" where
  "member_offsets off [] = []"
| "member_offsets off ((sz, al) # ms) = align_up al off # member_offsets (align_up al off + sz) ms"

fun members_end :: "nat \<Rightarrow> (nat \<times> nat) list \<Rightarrow> nat" where
  "members_end off [] = off"
| "members_end off ((sz, al) # ms) = members_end (align_up al off + sz) ms"

definition struct_align :: "nat \<Rightarrow> (nat \<times> nat) list \<Rightarrow> nat" where
  "struct_align requested ms = fold max (map snd ms) requested"

definition struct_size :: "nat \<Rightarrow> (nat \<times> nat) list \<Rightarrow> nat" where
  "struct_size requested ms = align_up (struct_align requested ms) (members_end 0 ms)"

definition sizeof_int :: nat where "sizeof_int = 4"

definition cache_line :: "nat \<Rightarrow> nat" where
  "cache_line addr = addr div 64"

subsection \<open>Cache-line alignment (cache-alignment program)\<close>

definition NUM_STRUCTS :: nat where "NUM_STRUCTS = 1000000"
definition NUM_ITERATIONS_align :: nat where "NUM_ITERATIONS_align = 100"
definition CACHE_LINE_SIZE :: nat where "CACHE_LINE_SIZE = 64"

record UnalignedStruct =
  data :: "int32 list"

record AlignedStruct =
  data :: "int32 list"

definition UnalignedStruct_members :: "(nat \<times> nat) list" where
  "UnalignedStruct_members = [(16 * sizeof_int, sizeof_int)]"

definition sizeof_UnalignedStruct :: nat where
  "sizeof_UnalignedStruct = struct_size 1 UnalignedStruct_members"

definition AlignedStruct_members :: "(nat \<times> nat) list" where
  "AlignedStruct_members = [(16 * sizeof_int, sizeof_int)]"

definition sizeof_AlignedStruct :: nat where
  "sizeof_AlignedStruct = struct_size CACHE_LINE_SIZE AlignedStruct_members"

text \<open>The three nested loops of \<open>benchmarkAccess\<close>, innermost first. The accumulator is a
  \<open>long long\<close>; each \<open>int\<close> read is sign-extended before it is added.\<close>

definition sum_fields :: "int32 list \<Rightarrow> int64 \<Rightarrow> fault + int64" where
  "sum_fields d s = for_loop 16 (\<lambda>j s. bind_res (read_elem d j) (\<lambda>v. Inr (s + scast v))) s"

definition sum_structs :: "('t \<Rightarrow> int32 list) \<Rightarrow> 't list \<Rightarrow> nat \<Rightarrow> int64 \<Rightarrow> fault + int64" where
  "sum_structs data_of arr count s =
     for_loop count (\<lambda>i s. bind_res (read_elem arr i) (\<lambda>e. sum_fields (data_of e) s)) s"

definition scan_loops :: "('t \<Rightarrow> int32 list) \<Rightarrow> 't list \<Rightarrow> nat \<Rightarrow> nat \<Rightarrow> fault + int64" where
  "scan_loops data_of arr count iters =
     for_loop iters (\<lambda>iter s. sum_structs data_of arr count s) 0"

text \<open>What one call of \<open>benchmarkAccess\<close> gives back and prints. The template parameter \<open>T\<close>
  is the type variable \<open>'t\<close>, with the selector of its \<open>data\<close> member passed along;
  \<open>duration\<close> is the number of milliseconds computed from the two clock readings.\<close>

record access_report = "int64 printed" +
  returned :: int

definition benchmarkAccess ::
  "('t \<Rightarrow> int32 list) \<Rightarrow> 't list \<Rightarrow> nat \<Rightarrow> string \<Rightarrow> int \<Rightarrow> fault + access_report" where
  "benchmarkAccess data_of arr count label duration =
     bind_res (scan_loops data_of arr count NUM_ITERATIONS_align)
       (\<lambda>sum. Inr \<lparr>printed_label = label, printed_ms = duration, printed_sum = sum,
                    trace = [TimerStart, Pattern, TimerStop, Print label],
                    returned = duration\<rparr>)"

text \<open>The sum of all fields of all elements, as a mathematical integer.\<close>

definition field_total :: "int32 list list \<Rightarrow> int" where
  "field_total ds = sum_list (map (\<lambda>d. sum_list (map sint d)) ds)"

text \<open>The aligned acquisition of \<open>main\<close> and the address of the \<open>i\<close>-th element of the array
  it yields. \<open>aligned_alloc\<close> is the platform's: given alignment and size it returns an
  address, or nothing when it fails.\<close>

definition acquire_aligned :: "(nat \<Rightarrow> nat \<Rightarrow> nat option) \<Rightarrow> nat option" where
  "acquire_aligned aligned_alloc = aligned_alloc CACHE_LINE_SIZE (sizeof_AlignedStruct * NUM_STRUCTS)"

definition element_address :: "nat \<Rightarrow> nat \<Rightarrow> nat" where
  "element_address base i = base + i * sizeof_AlignedStruct"

text \<open>The contract of \<open>aligned_alloc\<close> in the C library: a successful call returns an
  address that is a multiple of the alignment asked for.\<close>

definition aligned_alloc_contract :: "(nat \<Rightarrow> nat \<Rightarrow> nat option) \<Rightarrow> bool" where
  "aligned_alloc_contract aligned_alloc =
     (\<forall>al sz p. aligned_alloc al sz = Some p \<longrightarrow> p mod al = 0)"

text \<open>An allocator that meets the contract: it hands out the next aligned address above a
  fixed break.\<close>

definition bump_alloc :: "nat \<Rightarrow> nat \<Rightarrow> nat \<Rightarrow> nat option" where
  "bump_alloc brk al sz = (if al = 0 then None else Some (align_up al (brk + 1)))"

text \<open>\<open>main\<close>. \<open>op_new\<close> is \<open>operator new[]\<close> (nothing when it throws \<open>std::bad_alloc\<close>, which
  \<open>main\<close> does not catch); \<open>ndebug\<close> says whether \<open>assert\<close> is compiled out; \<open>ms1\<close> and \<open>ms2\<close>
  are the durations the two calls of \<open>benchmarkAccess\<close> measure. Both arrays are cleared
  with \<open>memset\<close> before the first benchmark runs.\<close>

definition main_align ::
  "bool \<Rightarrow> (nat \<Rightarrow> nat option) \<Rightarrow> (nat \<Rightarrow> nat \<Rightarrow> nat option) \<Rightarrow> int \<Rightarrow> int \<Rightarrow> run" where
  "main_align ndebug op_new aligned_alloc ms1 ms2 =
     (let log0 = [Print ''Testing cache line alignment impact...''] in
      case op_new (sizeof_UnalignedStruct * NUM_STRUCTS) of
        None \<Rightarrow> \<lparr>status = Aborted, events = log0\<rparr>
      | Some unalignedPtr \<Rightarrow>
          let unalignedArr = replicate NUM_STRUCTS \<lparr>UnalignedStruct.data = replicate 16 0\<rparr>;
              log1 = log0 @ [Acquire, Memset] in
          case acquire_aligned aligned_alloc of
            None \<Rightarrow>
              (if ndebug then \<lparr>status = Undefined NullPointer, events = log1\<rparr>
               else \<lparr>status = Aborted, events = log1\<rparr>)
          | Some rawPtr \<Rightarrow>
              let alignedArr = replicate NUM_STRUCTS \<lparr>AlignedStruct.data = replicate 16 0\<rparr>;
                  log2 = log1 @ [Acquire, Memset] in
              case benchmarkAccess UnalignedStruct.data unalignedArr NUM_STRUCTS
                     ''Unaligned access'' ms1 of
                Inl f \<Rightarrow> \<lparr>status = Undefined f, events = log2\<rparr>
              | Inr r1 \<Rightarrow>
                  (case benchmarkAccess AlignedStruct.data alignedArr NUM_STRUCTS
                          ''Aligned access'' ms2 of
                     Inl f \<Rightarrow> \<lparr>status = Undefined f, events = log2 @ trace r1\<rparr>
                   | Inr r2 \<Rightarrow>
                       \<lparr>status = Returned 0,
                        events = log2 @ trace r1 @ trace r2 @ [Release, Release]\<rparr>))"

subsection \<open>False sharing (the two-thread increment program)\<close>

definition NUM_ITERATIONS_share :: nat where "NUM_ITERATIONS_share = 1000000000"

record SharedDataFalseSharing =
  x :: int32
  y :: int32

record SharedDataNoFalseSharing =
  x :: int32
  padding :: "byte list"
  y :: int32

definition SharedDataFalseSharing_members :: "(nat \<times> nat) list" where
  "SharedDataFalseSharing_members = [(sizeof_int, sizeof_int), (sizeof_int, sizeof_int)]"

definition SharedDataNoFalseSharing_members :: "(nat \<times> nat) list" where
  "SharedDataNoFalseSharing_members =
     [(sizeof_int, sizeof_int), (64 - sizeof_int, 1), (sizeof_int, sizeof_int)]"

text \<open>The offsets of \<open>x\<close> and \<open>y\<close> in the two structs, and the alignment of each struct
  (the second one is declared \<open>alignas(64)\<close>).\<close>

definition offset_x_false :: nat where
  "offset_x_false = member_offsets 0 SharedDataFalseSharing_members ! 0"

definition offset_y_false :: nat where
  "offset_y_false = member_offsets 0 SharedDataFalseSharing_members ! 1"

definition alignof_false :: nat where
  "alignof_false = struct_align 1 SharedDataFalseSharing_members"

definition offset_x_nofalse :: nat where
  "offset_x_nofalse = member_offsets 0 SharedDataNoFalseSharing_members ! 0"

definition offset_y_nofalse :: nat where
  "offset_y_nofalse = member_offsets 0 SharedDataNoFalseSharing_members ! 2"

definition alignof_nofalse :: nat where
  "alignof_nofalse = struct_align 64 SharedDataNoFalseSharing_members"

text \<open>The cache lines that the \<open>sizeof(int)\<close> bytes of a field at a given address touch:
  the line of its first byte and the line of its last byte.\<close>

definition field_lines :: "nat \<Rightarrow> nat \<times> nat" where
  "field_lines addr = (cache_line addr, cache_line (addr + sizeof_int - 1))"

definition same_line :: "nat \<Rightarrow> nat \<Rightarrow> bool" where
  "same_line addr1 addr2 =
     (field_lines addr1 = field_lines addr2 \<and> fst (field_lines addr1) = snd (field_lines addr1))"

definition separate_lines :: "nat \<Rightarrow> nat \<Rightarrow> bool" where
  "separate_lines addr1 addr2 =
     (snd (field_lines addr1) < fst (field_lines addr2)
      \<or> snd (field_lines addr2) < fst (field_lines addr1))"

definition dataFalse :: SharedDataFalseSharing where
  "dataFalse = \<lparr>SharedDataFalseSharing.x = 0, y = 0\<rparr>"

definition dataNoFalse :: SharedDataNoFalseSharing where
  "dataNoFalse = \<lparr>SharedDataNoFalseSharing.x = 0, padding = replicate (64 - sizeof_int) 0, y = 0\<rparr>"

text \<open>
  A thread that runs \<open>for (size_t i = 0; i < n; ++i) field++\<close> on a volatile field. The
  increment of a volatile \<open>int\<close> is a load followed by a store, and the other thread may run
  between the two; so a thread is a small machine with its loop counter, the register that
  holds the value it loaded, and its place in the loop.
\<close>

datatype place = AtLoop | AtStore | Exited

record actor =
  counter :: nat
  reg :: int32
  place :: place

definition start_actor :: actor where
  "start_actor = \<lparr>counter = 0, reg = 0, place = AtLoop\<rparr>"

definition increment_step ::
  "('d \<Rightarrow> int32) \<Rightarrow> (int32 \<Rightarrow> 'd \<Rightarrow> 'd) \<Rightarrow> nat \<Rightarrow> actor \<times> 'd \<Rightarrow> actor \<times> 'd" where
  "increment_step load store n = (\<lambda>(a, d).
     case place a of
       AtLoop \<Rightarrow>
         if counter a < n then (a\<lparr>reg := load d, place := AtStore\<rparr>, d)
         else (a\<lparr>place := Exited\<rparr>, d)
     | AtStore \<Rightarrow> (a\<lparr>counter := counter a + 1, place := AtLoop\<rparr>, store (reg a + 1) d)
     | Exited \<Rightarrow> (a, d))"

text \<open>The four thread bodies of the source, each on its own field.\<close>

definition threadFunc1_false :: "nat \<Rightarrow> actor \<times> SharedDataFalseSharing \<Rightarrow> actor \<times> SharedDataFalseSharing" where
  "threadFunc1_false = increment_step SharedDataFalseSharing.x
                         (\<lambda>v d. d\<lparr>SharedDataFalseSharing.x := v\<rparr>)"

definition threadFunc2_false :: "nat \<Rightarrow> actor \<times> SharedDataFalseSharing \<Rightarrow> actor \<times> SharedDataFalseSharing" where
  "threadFunc2_false = increment_step SharedDataFalseSharing.y
                         (\<lambda>v d. d\<lparr>SharedDataFalseSharing.y := v\<rparr>)"

definition threadFunc1_nofalse :: "nat \<Rightarrow> actor \<times> SharedDataNoFalseSharing \<Rightarrow> actor \<times> SharedDataNoFalseSharing" where
  "threadFunc1_nofalse = increment_step SharedDataNoFalseSharing.x
                           (\<lambda>v d. d\<lparr>SharedDataNoFalseSharing.x := v\<rparr>)"

definition threadFunc2_nofalse :: "nat \<Rightarrow> actor \<times> SharedDataNoFalseSharing \<Rightarrow> actor \<times> SharedDataNoFalseSharing" where
  "threadFunc2_nofalse = increment_step SharedDataNoFalseSharing.y
                           (\<lambda>v d. d\<lparr>SharedDataNoFalseSharing.y := v\<rparr>)"

text \<open>Two threads over one shared struct. The scheduler is a list that names, step by
  step, the thread that runs next; a thread that has exited does nothing when named.\<close>

datatype tid = T1 | T2

record 'd threads =
  shared :: 'd
  t1 :: actor
  t2 :: actor

definition sched_step ::
  "(actor \<times> 'd \<Rightarrow> actor \<times> 'd) \<Rightarrow> (actor \<times> 'd \<Rightarrow> actor \<times> 'd) \<Rightarrow> tid \<Rightarrow> 'd threads \<Rightarrow> 'd threads" where
  "sched_step f1 f2 t s =
     (case t of
        T1 \<Rightarrow> (case f1 (t1 s, shared s) of (a, d) \<Rightarrow> s\<lparr>shared := d, t1 := a\<rparr>)
      | T2 \<Rightarrow> (case f2 (t2 s, shared s) of (a, d) \<Rightarrow> s\<lparr>shared := d, t2 := a\<rparr>))"

definition run_threads ::
  "(actor \<times> 'd \<Rightarrow> actor \<times> 'd) \<Rightarrow> (actor \<times> 'd \<Rightarrow> actor \<times> 'd) \<Rightarrow> tid list \<Rightarrow> 'd \<Rightarrow> 'd threads" where
  "run_threads f1 f2 sched d =
     fold (sched_step f1 f2) sched \<lparr>shared = d, t1 = start_actor, t2 = start_actor\<rparr>"

text \<open>Both \<open>join\<close> calls have returned when both threads have exited.\<close>

definition joined :: "'d threads \<Rightarrow> bool" where
  "joined s = (place (t1 s) = Exited \<and> place (t2 s) = Exited)"

text \<open>The two benchmarks, with the iteration count as a parameter; the program runs them
  with \<open>NUM_ITERATIONS\<close>.\<close>

definition runFalseSharingBenchmark :: "nat \<Rightarrow> tid list \<Rightarrow> SharedDataFalseSharing threads" where
  "runFalseSharingBenchmark n sched =
     run_threads (threadFunc1_false n) (threadFunc2_false n) sched dataFalse"

definition runNoFalseSharingBenchmark :: "nat \<Rightarrow> tid list \<Rightarrow> SharedDataNoFalseSharing threads" where
  "runNoFalseSharingBenchmark n sched =
     run_threads (threadFunc1_nofalse n) (threadFunc2_nofalse n) sched dataNoFalse"

text \<open>What the main thread does in each of the two benchmarks, in order: it reads the
  clock, starts both threads, joins both, reads the clock again and prints. The structs are
  globals: nothing is acquired or released.\<close>

definition runFalseSharingBenchmark_events :: "event list" where
  "runFalseSharingBenchmark_events =
     [TimerStart, Spawn 1, Spawn 2, Join 1, Join 2, TimerStop,
      Print ''Time taken with FALSE SHARING'']"

definition runNoFalseSharingBenchmark_events :: "event list" where
  "runNoFalseSharingBenchmark_events =
     [TimerStart, Spawn 1, Spawn 2, Join 1, Join 2, TimerStop,
      Print ''Time taken with NO FALSE SHARING (padded)'']"

text \<open>What holds of a thread and its own field \<open>v\<close> at every moment of a run, and the
  number of steps the thread has taken (used in the proofs only).\<close>

definition actor_inv :: "nat \<Rightarrow> int32 \<Rightarrow> actor \<Rightarrow> bool" where
  "actor_inv n v a =
     (counter a \<le> n \<and> v = word_of_nat (counter a)
      \<and> (place a = AtStore \<longrightarrow> counter a < n \<and> reg a = v)
      \<and> (place a = Exited \<longrightarrow> counter a = n))"

definition steps_done :: "nat \<Rightarrow> actor \<Rightarrow> nat" where
  "steps_done n a =
     (case place a of
        AtLoop \<Rightarrow> 2 * counter a
      | AtStore \<Rightarrow> 2 * counter a + 1
      | Exited \<Rightarrow> 2 * n + 1)"

subsection \<open>Array of structs against struct of arrays\<close>

text \<open>
  The fields are \<open>float\<close>s. The type of floats is the type variable \<open>'f\<close>, and its addition
  and its zero are parameters \<open>fadd\<close> and \<open>fzero\<close> of the functions that compute with them:
  nothing is assumed about floating-point addition.
\<close>

definition NUM_PARTICLES :: nat where "NUM_PARTICLES = 100000000"

record 'f ParticleAoS =
  x :: 'f
  y :: 'f
  z :: 'f

record 'f ParticlesSoA =
  x :: "'f list"
  y :: "'f list"
  z :: "'f list"

text \<open>The constructor \<open>ParticlesSoA(n)\<close>: \<open>resize\<close> fills each vector with \<open>n\<close> zeros.\<close>

definition ParticlesSoA_ctor :: "'f \<Rightarrow> nat \<Rightarrow> 'f ParticlesSoA" where
  "ParticlesSoA_ctor fzero n =
     \<lparr>ParticlesSoA.x = replicate n fzero, y = replicate n fzero, z = replicate n fzero\<rparr>"

text \<open>The two timed loops, over any data and any count.\<close>

definition aos_scan :: "('f \<Rightarrow> 'f \<Rightarrow> 'f) \<Rightarrow> 'f \<Rightarrow> 'f ParticleAoS list \<Rightarrow> nat \<Rightarrow> fault + 'f" where
  "aos_scan fadd fzero particles n =
     for_loop n (\<lambda>i sum. bind_res (read_elem particles i)
                           (\<lambda>p. Inr (fadd sum (ParticleAoS.x p)))) fzero"

definition soa_scan :: "('f \<Rightarrow> 'f \<Rightarrow> 'f) \<Rightarrow> 'f \<Rightarrow> 'f ParticlesSoA \<Rightarrow> nat \<Rightarrow> fault + 'f" where
  "soa_scan fadd fzero particles n =
     for_loop n (\<lambda>i sum. bind_res (read_elem (ParticlesSoA.x particles) i)
                           (\<lambda>v. Inr (fadd sum v))) fzero"

text \<open>The two benchmarks: each builds its zero-filled data before the timer starts, and
  the vectors are destroyed when the function returns.\<close>

definition runAoSBenchmark :: "('f \<Rightarrow> 'f \<Rightarrow> 'f) \<Rightarrow> 'f \<Rightarrow> int \<Rightarrow> fault + 'f printed" where
  "runAoSBenchmark fadd fzero ms =
     (let particles = replicate NUM_PARTICLES \<lparr>ParticleAoS.x = fzero, y = fzero, z = fzero\<rparr> in
      bind_res (aos_scan fadd fzero particles NUM_PARTICLES)
        (\<lambda>sum. Inr \<lparr>printed_label = ''AoS read'', printed_ms = ms, printed_sum = sum,
                     trace = [Acquire, TimerStart, Pattern, TimerStop,
                              Print ''AoS read'', Release]\<rparr>))"

definition runSoABenchmark :: "('f \<Rightarrow> 'f \<Rightarrow> 'f) \<Rightarrow> 'f \<Rightarrow> int \<Rightarrow> fault + 'f printed" where
  "runSoABenchmark fadd fzero ms =
     (let particles = ParticlesSoA_ctor fzero NUM_PARTICLES in
      bind_res (soa_scan fadd fzero particles NUM_PARTICLES)
        (\<lambda>sum. Inr \<lparr>printed_label = ''SoA read'', printed_ms = ms, printed_sum = sum,
                     trace = [Acquire, Acquire, Acquire, TimerStart, Pattern, TimerStop,
                              Print ''SoA read'', Release, Release, Release]\<rparr>))"

subsection \<open>Heap against pool allocation\<close>

definition NUM_OBJECTS :: nat where "NUM_OBJECTS = 10000000"

record Trade =
  id' :: int32
  price :: real
  quantity :: int32

text \<open>\<open>Trade{static_cast<int>(i), 100.5 + i, 10}\<close>\<close>

definition make_trade :: "nat \<Rightarrow> Trade" where
  "make_trade i = \<lparr>id' = word_of_nat i, price = 201 / 2 + real i, quantity = 10\<rparr>"

text \<open>
  The pool: the region that \<open>malloc\<close> returned (nothing for the null pointer, and nothing
  again once it is freed), as a list of slots, each raw or holding a live \<open>Trade\<close>; the
  number of constructor and destructor runs so far; and the events so far.
\<close>

record pool =
  region :: "Trade option list option"
  constructions :: nat
  destructions :: nat
  history :: "event list"

text \<open>\<open>new (&trades[i]) Trade{...}\<close>\<close>

definition placement_new :: "nat \<Rightarrow> pool \<Rightarrow> fault + pool" where
  "placement_new i p =
     (case region p of
        None \<Rightarrow> Inl NullPointer
      | Some slots \<Rightarrow>
          if i < length slots
          then Inr (p\<lparr>region := Some (slots[i := Some (make_trade i)]),
                      constructions := constructions p + 1,
                      history := history p @ [Construct i]\<rparr>)
          else Inl OutOfBounds)"

text \<open>\<open>trades[i].~Trade()\<close>: the slot must hold a live object.\<close>

definition destroy :: "nat \<Rightarrow> pool \<Rightarrow> fault + pool" where
  "destroy i p =
     (case region p of
        None \<Rightarrow> Inl NullPointer
      | Some slots \<Rightarrow>
          if i < length slots
          then (case slots ! i of
                  None \<Rightarrow> Inl NotLive
                | Some t \<Rightarrow>
                    Inr (p\<lparr>region := Some (slots[i := None]),
                           destructions := destructions p + 1,
                           history := history p @ [Destruct i]\<rparr>))
          else Inl OutOfBounds)"

text \<open>\<open>poolAllocationBenchmark\<close>, with the number of objects as a parameter (the program
  uses \<open>NUM_OBJECTS\<close>). \<open>malloc_ok\<close> says whether \<open>malloc\<close> returned a region; the source
  does not test the pointer.\<close>

definition poolAllocationBenchmark :: "nat \<Rightarrow> bool \<Rightarrow> fault + pool" where
  "poolAllocationBenchmark n malloc_ok =
     (let p0 = \<lparr>region = None, constructions = 0, destructions = 0, history = [TimerStart]\<rparr>;
          p1 = (if malloc_ok
                then p0\<lparr>region := Some (replicate n None), history := history p0 @ [Acquire]\<rparr>
                else p0) in
      bind_res (for_loop n placement_new p1) (\<lambda>p2.
      bind_res (for_loop n destroy p2) (\<lambda>p3.
      Inr (p3\<lparr>region := None,
              history := history p3 @ (if malloc_ok then [Release] else [])
                           @ [TimerStop, Print ''Pool Allocation'']\<rparr>))))"

text \<open>
  \<open>heapAllocationBenchmark\<close>, with the number of objects as a parameter (the program uses
  \<open>NUM_OBJECTS\<close>). Every iteration runs \<open>new Trade{...}\<close> and then \<open>push_back\<close> on the
  vector of pointers; then every pointer of the vector is deleted; the vector itself is
  destroyed when the function returns, after the second clock reading and the output.

  The vector is the library's. Its state here is its elements and its capacity; when a
  \<open>push_back\<close> finds it full, it acquires a larger buffer and releases the old one, if it
  had one. How much larger is left to the library: \<open>grow\<close> maps the old capacity to the
  new one. The heap is taken to be large enough.
\<close>

definition push_back ::
  "(nat \<Rightarrow> nat) \<Rightarrow> 'a \<Rightarrow> 'a list \<times> nat \<times> event list \<Rightarrow> 'a list \<times> nat \<times> event list" where
  "push_back grow v = (\<lambda>(elems, cap, h).
     if length elems < cap then (elems @ [v], cap, h)
     else (elems @ [v], grow cap, h @ [Acquire] @ (if cap = 0 then [] else [Release])))"

definition heap_push ::
  "(nat \<Rightarrow> nat) \<Rightarrow> nat \<Rightarrow> Trade list \<times> nat \<times> event list \<Rightarrow> Trade list \<times> nat \<times> event list" where
  "heap_push grow i = (\<lambda>(trades, cap, h).
     push_back grow (make_trade i) (trades, cap, h @ [Acquire]))"

definition heap_delete :: "Trade \<Rightarrow> event list \<Rightarrow> event list" where
  "heap_delete t h = h @ [Release]"

definition heapAllocationBenchmark :: "(nat \<Rightarrow> nat) \<Rightarrow> nat \<Rightarrow> event list" where
  "heapAllocationBenchmark grow n =
     (case fold (heap_push grow) [0..<n] ([], 0, [TimerStart]) of
        (trades, cap, h) \<Rightarrow>
          fold heap_delete trades h @ [TimerStop, Print ''Heap Allocation'']
            @ (if cap = 0 then [] else [Release]))"

text \<open>A growth policy: the capacity doubles, starting from 1.\<close>

definition doubling :: "nat \<Rightarrow> nat" where
  "doubling cap = max 1 (2 * cap)"

subsection \<open>NUMA access\<close>

definition NUM_ITERATIONS_numa :: nat where "NUM_ITERATIONS_numa = 500000000"
definition DATA_SIZE :: nat where "DATA_SIZE = 1024 * 1024"

text \<open>\<open>data[k]++\<close> on the block that \<open>memory\<close> points to: nothing when \<open>memory\<close> is null.\<close>

definition increment_byte :: "byte list option \<Rightarrow> nat \<Rightarrow> fault + byte list option" where
  "increment_byte memory k =
     (case memory of
        None \<Rightarrow> Inl NullPointer
      | Some block \<Rightarrow>
          if k < length block then Inr (Some (block[k := block ! k + 1]))
          else Inl OutOfBounds)"

text \<open>The timed loop of \<open>runBenchmark\<close>, for any number of iterations.\<close>

definition access_loop :: "nat \<Rightarrow> byte list option \<Rightarrow> fault + byte list option" where
  "access_loop n memory = for_loop n (\<lambda>i m. increment_byte m (i mod DATA_SIZE)) memory"

text \<open>How often the first \<open>n\<close> iterations of the loop touch the byte at index \<open>j\<close>.\<close>

definition hits :: "nat \<Rightarrow> nat \<Rightarrow> nat" where
  "hits n j = length (filter (\<lambda>i. i mod DATA_SIZE = j) [0..<n])"

text \<open>\<open>runBenchmark\<close> returns nothing; what it leaves behind is the block and its events.
  \<open>numa_run_on_node\<close> is the library's: it returns 0, or -1 when the node does not exist;
  the source drops the result.\<close>

definition runBenchmark ::
  "(nat \<Rightarrow> int) \<Rightarrow> byte list option \<Rightarrow> nat \<Rightarrow> string \<Rightarrow> fault + byte list option \<times> event list" where
  "runBenchmark numa_run_on_node memory node label =
     (let dropped = numa_run_on_node node in
      bind_res (access_loop NUM_ITERATIONS_numa memory)
        (\<lambda>m. Inr (m, [BindNode node, TimerStart, Pattern, TimerStop, Print label])))"

text \<open>\<open>main\<close>. \<open>numa_available\<close> is the result of the library call of that name;
  \<open>numa_alloc_onnode\<close> maps size and node to a fresh block, or to nothing (the null
  pointer) when it fails.\<close>

definition main_numa ::
  "int \<Rightarrow> (nat \<Rightarrow> nat \<Rightarrow> byte list option) \<Rightarrow> (nat \<Rightarrow> int) \<Rightarrow> run" where
  "main_numa numa_available numa_alloc_onnode numa_run_on_node =
     (if numa_available = - 1
      then \<lparr>status = Returned 1,
            events = [PrintErr ''NUMA is not available on this system.'']\<rparr>
      else
        let memory = numa_alloc_onnode DATA_SIZE 0;
            log0 = (if memory = None then [] else [Acquire])
                     @ [Print ''NUMA Memory Access Benchmark''] in
        case runBenchmark numa_run_on_node memory 0 ''Local access (Node 0)'' of
          Inl f \<Rightarrow> \<lparr>status = Undefined f, events = log0 @ [BindNode 0, TimerStart]\<rparr>
        | Inr (m1, ev1) \<Rightarrow>
            (case runBenchmark numa_run_on_node m1 1 ''Remote access (Node 1)'' of
               Inl f \<Rightarrow> \<lparr>status = Undefined f, events = log0 @ ev1 @ [BindNode 1, TimerStart]\<rparr>
             | Inr (m2, ev2) \<Rightarrow>
                 \<lparr>status = Returned 0, events = log0 @ ev1 @ ev2 @ [Release]\<rparr>))"

subsection \<open>Platform behaviours used in the examples\<close>

text \<open>An allocator that always fails; a NUMA allocator that always succeeds with a
  zero-filled block; and \<open>numa_run_on_node\<close> on a machine whose only node is node 0.\<close>

definition no_memory :: "nat \<Rightarrow> nat \<Rightarrow> 'a option" where
  "no_memory a b = None"

definition zero_block :: "nat \<Rightarrow> nat \<Rightarrow> byte list option" where
  "zero_block sz node = Some (replicate sz 0)"

definition single_node :: "nat \<Rightarrow> int" where
  "single_node node = (if node = 0 then 0 else - 1)"

text \<open>A run contains a failure when it still ends by returning from \<open>main\<close> and at least
  one access pattern was run.\<close>

definition failure_contained :: "run \<Rightarrow> bool" where
  "failure_contained r =
     ((case status r of Returned c \<Rightarrow> True | Aborted \<Rightarrow> False | Undefined f \<Rightarrow> False)
      \<and> Pattern \<in> set (events r))"

section \<open>Properties\<close>

subsection \<open>Loops and faults\<close>

lemma bind_res_simps [simp]:
  "bind_res (Inl e) f = Inl e"
  "bind_res (Inr v) f = f v"
  by (simp_all add: bind_res_def)

lemma for_loop_0 [simp]: "for_loop 0 body s = Inr s"
  by (simp add: for_loop_def)

lemma for_loop_Suc: "for_loop (Suc n) body s = bind_res (for_loop n body s) (body n)"
  by (simp add: for_loop_def)

text \<open>A loop whose body never faults below the bound is a plain fold.\<close>

lemma for_loop_total:
  assumes "\<And>k t. k < n \<Longrightarrow> body k t = Inr (g k t)"
  shows "for_loop n body s = Inr (fold g [0..<n] s)"
  using assms
proof (induction n)
  case 0
  show ?case by simp
next
  case (Suc n)
  then have "for_loop n body s = Inr (fold g [0..<n] s)" by simp
  then show ?case using Suc.prems[of n] by (simp add: for_loop_Suc)
qed

lemma fold_add_index:
  assumes "\<And>k. k < n \<Longrightarrow> f k = word_of_int (g k)"
  shows "fold (\<lambda>k (s::int64). s + f k) [0..<n] s = s + word_of_int (\<Sum>k<n. g k)"
  using assms by (induction n) (simp_all add: add.assoc)

subsection \<open>The full-struct scan\<close>

lemma sum_fields_value:
  assumes "length d = 16"
  shows "sum_fields d s = Inr (s + word_of_int (sum_list (map sint d)))"
proof -
  have "sum_fields d s = Inr (fold (\<lambda>j s. s + scast (d ! j)) [0..<16] s)"
    unfolding sum_fields_def
    by (rule for_loop_total) (simp add: read_elem_def assms)
  also have "fold (\<lambda>j (s::int64). s + scast (d ! j)) [0..<16] s
      = s + word_of_int (\<Sum>j<16. sint (d ! j))"
    by (rule fold_add_index[where g = "\<lambda>j. sint (d ! j)"]) (simp only: scast_eq)
  also have "(\<Sum>j<16. sint (d ! j)) = sum_list (map sint d)"
    using assms by (simp add: sum_list_sum_nth atLeast0LessThan)
  finally show ?thesis .
qed

lemma sum_structs_value:
  assumes "count \<le> length arr" "\<forall>e \<in> set (take count arr). length (data_of e) = 16"
  shows "sum_structs data_of arr count s
       = Inr (s + word_of_int (field_total (map data_of (take count arr))))"
proof -
  have len: "length (data_of (arr ! k)) = 16" if "k < count" for k
  proof -
    have "arr ! k \<in> set (take count arr)"
      using that assms(1) by (metis in_set_conv_nth length_take min.absorb2 nth_take)
    then show ?thesis using assms(2) by blast
  qed
  let ?g = "\<lambda>k. sum_list (map sint (data_of (arr ! k)))"
  have "sum_structs data_of arr count s
      = Inr (fold (\<lambda>k s. s + word_of_int (?g k)) [0..<count] s)"
    unfolding sum_structs_def
    by (rule for_loop_total) (use assms(1) len in \<open>simp add: read_elem_def sum_fields_value\<close>)
  also have "fold (\<lambda>k (s::int64). s + word_of_int (?g k)) [0..<count] s
      = s + word_of_int (\<Sum>k<count. ?g k)"
    by (rule fold_add_index[where g = ?g]) simp
  also have "(\<Sum>k<count. ?g k) = field_total (map data_of (take count arr))"
    using assms(1) by (simp add: field_total_def sum_list_sum_nth atLeast0LessThan min.absorb2)
  finally show ?thesis .
qed

lemma scan_loops_value:
  assumes "count \<le> length arr" "\<forall>e \<in> set (take count arr). length (data_of e) = 16"
  shows "scan_loops data_of arr count iters
       = Inr (word_of_int (int iters * field_total (map data_of (take count arr))))"
proof -
  let ?t = "field_total (map data_of (take count arr))"
  have "scan_loops data_of arr count iters
      = Inr (fold (\<lambda>it s. s + word_of_int ?t) [0..<iters] 0)"
    unfolding scan_loops_def
    by (rule for_loop_total) (simp add: sum_structs_value[OF assms])
  also have "fold (\<lambda>it (s::int64). s + word_of_int ?t) [0..<iters] 0
      = 0 + word_of_int (\<Sum>k<iters. ?t)"
    by (rule fold_add_index[where g = "\<lambda>k. ?t"]) simp
  finally show ?thesis by (simp add: mult.commute)
qed

lemma benchmarkAccess_value:
  assumes "count \<le> length arr" "\<forall>e \<in> set (take count arr). length (data_of e) = 16"
  shows "benchmarkAccess data_of arr count label duration =
     Inr \<lparr>printed_label = label, printed_ms = duration,
          printed_sum = word_of_int (int NUM_ITERATIONS_align
                                      * field_total (map data_of (take count arr))),
          trace = [TimerStart, Pattern, TimerStop, Print label],
          returned = duration\<rparr>"
  by (simp add: benchmarkAccess_def scan_loops_value[OF assms])

lemma sint_sum_bound: "\<bar>sum_list (map sint (d :: int32 list))\<bar> \<le> int (length d) * 2 ^ 31"
proof (induction d)
  case Nil
  show ?case by simp
next
  case (Cons w d)
  have "- (2 ^ 31) \<le> sint w" "sint w < 2 ^ 31"
    using sint_ge[of w] sint_lt[of w] by simp_all
  then show ?case using Cons by (simp add: algebra_simps)
qed

lemma field_total_bound:
  "\<forall>d \<in> set ds. length d = 16 \<Longrightarrow> \<bar>field_total ds\<bar> \<le> int (length ds) * 2 ^ 35"
proof (induction ds)
  case Nil
  show ?case by (simp add: field_total_def)
next
  case (Cons d ds)
  have "\<bar>sum_list (map sint d)\<bar> \<le> 16 * 2 ^ 31"
    using sint_sum_bound[of d] Cons.prems by simp
  moreover have "\<bar>field_total ds\<bar> \<le> int (length ds) * 2 ^ 35"
    using Cons by simp
  ultimately show ?case by (simp add: field_total_def algebra_simps)
qed

lemma sint_word_of_int_64:
  "- (2 ^ 63) \<le> k \<Longrightarrow> k < 2 ^ 63 \<Longrightarrow> sint (word_of_int k :: int64) = k"
  by (simp add: sint_sbintrunc' signed_take_bit_int_eq_self)

lemma field_total_zero: "field_total (replicate n (replicate 16 0)) = 0"
  by (simp add: field_total_def sum_list_replicate)

lemma benchmarkAccess_zero_unaligned:
  "benchmarkAccess UnalignedStruct.data
       (replicate NUM_STRUCTS \<lparr>UnalignedStruct.data = replicate 16 0\<rparr>) NUM_STRUCTS label t =
     Inr \<lparr>printed_label = label, printed_ms = t, printed_sum = 0,
          trace = [TimerStart, Pattern, TimerStop, Print label],
          returned = t\<rparr>"
  by (subst benchmarkAccess_value) (simp_all add: field_total_zero)

lemma benchmarkAccess_zero_aligned:
  "benchmarkAccess AlignedStruct.data
       (replicate NUM_STRUCTS \<lparr>AlignedStruct.data = replicate 16 0\<rparr>) NUM_STRUCTS label t =
     Inr \<lparr>printed_label = label, printed_ms = t, printed_sum = 0,
          trace = [TimerStart, Pattern, TimerStop, Print label],
          returned = t\<rparr>"
  by (subst benchmarkAccess_value) (simp_all add: field_total_zero)

lemma sizeof_AlignedStruct_64: "sizeof_AlignedStruct = 64"
  by (simp add: sizeof_AlignedStruct_def struct_size_def struct_align_def AlignedStruct_members_def
      sizeof_int_def CACHE_LINE_SIZE_def align_up_def)

lemma sizeof_UnalignedStruct_64: "sizeof_UnalignedStruct = 64"
  by (simp add: sizeof_UnalignedStruct_def struct_size_def struct_align_def
      UnalignedStruct_members_def sizeof_int_def align_up_def)

lemma align_up_multiple: "align_up a n mod a = 0"
  by (simp add: align_up_def)

lemma bump_alloc_contract: "aligned_alloc_contract (bump_alloc brk)"
  by (simp add: aligned_alloc_contract_def bump_alloc_def align_up_multiple)

subsection \<open>The NUMA access loop\<close>

lemma hits_Suc: "hits (Suc n) j = hits n j + (if n mod DATA_SIZE = j then 1 else 0)"
  by (simp add: hits_def)

text \<open>On a block of \<open>DATA_SIZE\<close> bytes the loop never faults, and it leaves each byte
  incremented once per iteration that touched it.\<close>

lemma access_loop_value:
  assumes "length block = DATA_SIZE"
  shows "access_loop n (Some block)
       = Inr (Some (map (\<lambda>j. block ! j + word_of_nat (hits n j)) [0..<DATA_SIZE]))"
proof (induction n)
  case 0
  have "map (\<lambda>j. block ! j) [0..<length block] = block" by (rule map_nth)
  then show ?case using assms by (simp add: access_loop_def hits_def)
next
  case (Suc n)
  let ?b = "map (\<lambda>j. block ! j + word_of_nat (hits n j)) [0..<DATA_SIZE]"
  have k: "n mod DATA_SIZE < DATA_SIZE" by (simp add: DATA_SIZE_def)
  have "access_loop (Suc n) (Some block) = increment_byte (Some ?b) (n mod DATA_SIZE)"
    using Suc by (simp add: access_loop_def for_loop_Suc)
  also have "\<dots> = Inr (Some (?b[n mod DATA_SIZE := ?b ! (n mod DATA_SIZE) + 1]))"
    using k by (simp add: increment_byte_def)
  also have "?b[n mod DATA_SIZE := ?b ! (n mod DATA_SIZE) + 1]
           = map (\<lambda>j. block ! j + word_of_nat (hits (Suc n) j)) [0..<DATA_SIZE]"
    using k by (intro nth_equalityI) (auto simp: hits_Suc nth_list_update)
  finally show ?case .
qed

text \<open>The bounds check of the model is real: on a block of one byte the second iteration
  is outside the block.\<close>

lemma access_loop_checks_bounds: "access_loop 2 (Some [0]) = Inl OutOfBounds"
  by (simp add: access_loop_def for_loop_def increment_byte_def DATA_SIZE_def numeral_2_eq_2)

subsection \<open>The pool and the heap\<close>

lemma construct_loop:
  assumes "region p = Some slots" "k \<le> length slots"
  shows "\<exists>slots'. for_loop k placement_new p
           = Inr (p\<lparr>region := Some slots',
                    constructions := constructions p + k,
                    history := history p @ map Construct [0..<k]\<rparr>)
         \<and> length slots' = length slots
         \<and> (\<forall>j<k. slots' ! j \<noteq> None)"
  using assms(2)
proof (induction k)
  case 0
  show ?case using assms(1) by (intro exI[of _ slots]) simp
next
  case (Suc k)
  then obtain slots' where
    run: "for_loop k placement_new p
           = Inr (p\<lparr>region := Some slots', constructions := constructions p + k,
                    history := history p @ map Construct [0..<k]\<rparr>)"
    and len: "length slots' = length slots"
    and live: "\<forall>j<k. slots' ! j \<noteq> None"
    by auto
  let ?s = "slots'[k := Some (make_trade k)]"
  have "for_loop (Suc k) placement_new p
      = Inr (p\<lparr>region := Some ?s, constructions := constructions p + Suc k,
               history := history p @ map Construct [0..<Suc k]\<rparr>)"
    using run len Suc.prems by (simp add: for_loop_Suc placement_new_def)
  moreover have "length ?s = length slots" using len by simp
  moreover have "\<forall>j<Suc k. ?s ! j \<noteq> None"
    using live len Suc.prems by (auto simp: nth_list_update less_Suc_eq)
  ultimately show ?case by blast
qed

lemma destroy_loop:
  assumes "region p = Some slots" "k \<le> length slots" "\<forall>j<k. slots ! j \<noteq> None"
  shows "\<exists>slots'. for_loop k destroy p
           = Inr (p\<lparr>region := Some slots',
                    destructions := destructions p + k,
                    history := history p @ map Destruct [0..<k]\<rparr>)
         \<and> length slots' = length slots
         \<and> (\<forall>j. k \<le> j \<longrightarrow> slots' ! j = slots ! j)"
  using assms(2,3)
proof (induction k)
  case 0
  show ?case using assms(1) by (intro exI[of _ slots]) simp
next
  case (Suc k)
  then obtain slots' where
    run: "for_loop k destroy p
           = Inr (p\<lparr>region := Some slots', destructions := destructions p + k,
                    history := history p @ map Destruct [0..<k]\<rparr>)"
    and len: "length slots' = length slots"
    and rest: "\<forall>j. k \<le> j \<longrightarrow> slots' ! j = slots ! j"
    by auto
  have "slots' ! k \<noteq> None" using rest Suc.prems by simp
  then obtain t where t: "slots' ! k = Some t" by auto
  let ?s = "slots'[k := None]"
  have "for_loop (Suc k) destroy p
      = Inr (p\<lparr>region := Some ?s, destructions := destructions p + Suc k,
               history := history p @ map Destruct [0..<Suc k]\<rparr>)"
    using run len Suc.prems t by (simp add: for_loop_Suc destroy_def)
  moreover have "length ?s = length slots" using len by simp
  moreover have "\<forall>j. Suc k \<le> j \<longrightarrow> ?s ! j = slots ! j"
    using rest by (auto simp: nth_list_update)
  ultimately show ?case by blast
qed

lemma poolAllocationBenchmark_value:
  "poolAllocationBenchmark n True
     = Inr \<lparr>region = None, constructions = n, destructions = n,
            history = [TimerStart, Acquire] @ map Construct [0..<n] @ map Destruct [0..<n]
                        @ [Release, TimerStop, Print ''Pool Allocation'']\<rparr>"
proof -
  let ?p1 = "\<lparr>region = Some (replicate n None), constructions = 0, destructions = 0,
              history = [TimerStart, Acquire]\<rparr>"
  obtain s2 where
    c: "for_loop n placement_new ?p1
          = Inr \<lparr>region = Some s2, constructions = n, destructions = 0,
                 history = [TimerStart, Acquire] @ map Construct [0..<n]\<rparr>"
    and l2: "length s2 = n" and live: "\<forall>j<n. s2 ! j \<noteq> None"
    using construct_loop[of ?p1 "replicate n None" n] by auto
  let ?p2 = "\<lparr>region = Some s2, constructions = n, destructions = 0,
              history = [TimerStart, Acquire] @ map Construct [0..<n]\<rparr>"
  obtain s3 where
    d: "for_loop n destroy ?p2
          = Inr \<lparr>region = Some s3, constructions = n, destructions = n,
                 history = [TimerStart, Acquire] @ map Construct [0..<n]
                             @ map Destruct [0..<n]\<rparr>"
    using destroy_loop[of ?p2 s2 n] l2 live by auto
  show ?thesis
    unfolding poolAllocationBenchmark_def using c d by simp
qed

lemma count_upt: "count_list [0..<n] k = (if k < n then 1 else 0)"
  by (induction n) auto

lemma count_Construct:
  "count_list (map Construct ks) (Construct k) = count_list ks k"
  "count_list (map Construct ks) (Destruct k) = 0"
  "count_list (map Construct ks) Release = 0"
  by (induction ks) auto

lemma count_Destruct:
  "count_list (map Destruct ks) (Destruct k) = count_list ks k"
  "count_list (map Destruct ks) (Construct k) = 0"
  "count_list (map Destruct ks) Release = 0"
  by (induction ks) auto

lemma timed_Cons_plain:
  "e \<noteq> TimerStart \<Longrightarrow> e \<noteq> TimerStop \<Longrightarrow>
     timed r (e # es) = (if r then e # timed r es else timed r es)"
  by (cases e) simp_all

lemma untimed_Cons_plain:
  "e \<noteq> TimerStart \<Longrightarrow> e \<noteq> TimerStop \<Longrightarrow>
     untimed r (e # es) = (if r then untimed r es else e # untimed r es)"
  by (cases e) simp_all

lemma timed_plain:
  "\<forall>e \<in> set es. e \<noteq> TimerStart \<and> e \<noteq> TimerStop \<Longrightarrow>
     timed r (es @ rest) = (if r then es else []) @ timed r rest"
  by (induction es) (auto simp: timed_Cons_plain)

lemma untimed_plain:
  "\<forall>e \<in> set es. e \<noteq> TimerStart \<and> e \<noteq> TimerStop \<Longrightarrow>
     untimed r (es @ rest) = (if r then [] else es) @ untimed r rest"
  by (induction es) (auto simp: untimed_Cons_plain)


lemma fold_heap_delete: "fold heap_delete ts h = h @ replicate (length ts) Release"
  by (induction ts arbitrary: h) (simp_all add: heap_delete_def replicate_app_Cons_same)

lemma is_alloc_simps [simp]: "is_alloc Acquire" "is_alloc Release"
  by (simp_all add: is_alloc_def)

text \<open>The pushes of the heap benchmark: the objects so far, a capacity that is 0 only before
  the first push, and events that are all acquisitions and releases, with one acquisition
  per object and one more acquisition than releases for the buffer of the vector.\<close>

lemma heap_pushes:
  assumes grow: "\<And>c. c < grow c"
  shows "\<exists>cap pe. fold (heap_push grow) [0..<n] ([], 0, [TimerStart])
                    = (map make_trade [0..<n], cap, TimerStart # pe)
          \<and> (cap = 0 \<longleftrightarrow> n = 0)
          \<and> list_all is_alloc pe
          \<and> count_list pe Acquire = n + count_list pe Release + (if n = 0 then 0 else 1)"
proof (induction n)
  case 0
  show ?case by simp
next
  case (Suc n)
  then obtain cap pe where
    f: "fold (heap_push grow) [0..<n] ([], 0, [TimerStart])
          = (map make_trade [0..<n], cap, TimerStart # pe)"
    and c: "cap = 0 \<longleftrightarrow> n = 0"
    and a: "list_all is_alloc pe"
    and k: "count_list pe Acquire = n + count_list pe Release + (if n = 0 then 0 else 1)"
    by blast
  have g: "grow cap \<noteq> 0" using grow[of cap] by simp
  show ?case
  proof (cases "n < cap")
    case True
    then have "fold (heap_push grow) [0..<Suc n] ([], 0, [TimerStart])
        = (map make_trade [0..<Suc n], cap, TimerStart # (pe @ [Acquire]))"
      using f by (simp add: heap_push_def push_back_def)
    moreover have "cap = 0 \<longleftrightarrow> Suc n = 0" using True by simp
    moreover have "list_all is_alloc (pe @ [Acquire])" using a by simp
    moreover have "count_list (pe @ [Acquire]) Acquire
        = Suc n + count_list (pe @ [Acquire]) Release + (if Suc n = 0 then 0 else 1)"
      using k c True by simp
    ultimately show ?thesis
      by (intro exI[of _ cap] exI[of _ "pe @ [Acquire]"] conjI)
  next
    case False
    let ?pe = "pe @ [Acquire, Acquire] @ (if cap = 0 then [] else [Release])"
    have "fold (heap_push grow) [0..<Suc n] ([], 0, [TimerStart])
        = (map make_trade [0..<Suc n], grow cap, TimerStart # ?pe)"
      using f False by (simp add: heap_push_def push_back_def)
    moreover have "grow cap = 0 \<longleftrightarrow> Suc n = 0" using g by simp
    moreover have "list_all is_alloc ?pe" using a by simp
    moreover have "count_list ?pe Acquire
        = Suc n + count_list ?pe Release + (if Suc n = 0 then 0 else 1)"
      using k c by simp
    ultimately show ?thesis
      by (intro exI[of _ "grow cap"] exI[of _ ?pe] conjI)
  qed
qed

lemma alloc_plain: "list_all is_alloc es \<Longrightarrow> \<forall>e \<in> set es. e \<noteq> TimerStart \<and> e \<noteq> TimerStop"
  by (auto simp: list_all_iff is_alloc_def)

lemma heap_run:
  assumes grow: "\<And>c. c < grow c"
  shows "\<exists>pe. heapAllocationBenchmark grow n
               = TimerStart # pe @ replicate n Release
                   @ [TimerStop, Print ''Heap Allocation'']
                   @ (if n = 0 then [] else [Release])
          \<and> list_all is_alloc pe
          \<and> count_list pe Acquire = n + count_list pe Release + (if n = 0 then 0 else 1)"
proof -
  from heap_pushes[OF grow, of n] obtain cap pe where
    f: "fold (heap_push grow) [0..<n] ([], 0, [TimerStart])
          = (map make_trade [0..<n], cap, TimerStart # pe)"
    and c: "cap = 0 \<longleftrightarrow> n = 0"
    and a: "list_all is_alloc pe"
    and k: "count_list pe Acquire = n + count_list pe Release + (if n = 0 then 0 else 1)"
    by blast
  have "heapAllocationBenchmark grow n
      = TimerStart # pe @ replicate n Release @ [TimerStop, Print ''Heap Allocation'']
          @ (if n = 0 then [] else [Release])"
    using c by (simp add: heapAllocationBenchmark_def f fold_heap_delete)
  then show ?thesis using a k by blast
qed

lemma count_replicate: "count_list (replicate n v) w = (if v = w then n else 0)"
  by (induction n) auto

lemma heap_timed:
  assumes grow: "\<And>c. c < grow c"
  shows "untimed False (heapAllocationBenchmark grow n)
           = Print ''Heap Allocation'' # (if n = 0 then [] else [Release])"
    and "list_all is_alloc (timed False (heapAllocationBenchmark grow n))"
    and "count_list (timed False (heapAllocationBenchmark grow n)) Acquire
           = count_list (timed False (heapAllocationBenchmark grow n)) Release
               + (if n = 0 then 0 else 1)"
    and "2 * n \<le> length (timed False (heapAllocationBenchmark grow n))"
proof -
  from heap_run[OF grow, of n] obtain pe where
    h: "heapAllocationBenchmark grow n
          = TimerStart # ((pe @ replicate n Release)
              @ (TimerStop # Print ''Heap Allocation'' # (if n = 0 then [] else [Release])))"
    and a: "list_all is_alloc pe"
    and k: "count_list pe Acquire = n + count_list pe Release + (if n = 0 then 0 else 1)"
    by auto
  have inside: "list_all is_alloc (pe @ replicate n Release)"
    using a by (auto simp: list_all_iff)
  note plain = alloc_plain[OF inside]
  have t: "timed False (heapAllocationBenchmark grow n) = pe @ replicate n Release"
    unfolding h
    using timed_plain[OF plain, of True
        "TimerStop # Print ''Heap Allocation'' # (if n = 0 then [] else [Release])"]
    by (simp del: append.simps append_assoc)
  show "untimed False (heapAllocationBenchmark grow n)
           = Print ''Heap Allocation'' # (if n = 0 then [] else [Release])"
    unfolding h
    using untimed_plain[OF plain, of True
        "TimerStop # Print ''Heap Allocation'' # (if n = 0 then [] else [Release])"]
    by (simp del: append.simps append_assoc)
  show "list_all is_alloc (timed False (heapAllocationBenchmark grow n))"
    unfolding t by (rule inside)
  show "count_list (timed False (heapAllocationBenchmark grow n)) Acquire
           = count_list (timed False (heapAllocationBenchmark grow n)) Release
               + (if n = 0 then 0 else 1)"
    unfolding t using k by (simp add: count_replicate)
  have "n \<le> count_list pe Acquire" using k by simp
  also have "\<dots> \<le> length pe" by (rule count_le_length)
  finally show "2 * n \<le> length (timed False (heapAllocationBenchmark grow n))"
    unfolding t by simp
qed

lemma doubling_grows: "c < doubling c"
  by (simp add: doubling_def max_def)

text \<open>Two objects under the doubling policy: the vector acquires a buffer for one pointer,
  then one for two and releases the first; the second buffer is released on return.\<close>

lemma heap_two_objects:
  "heapAllocationBenchmark doubling 2
     = [TimerStart, Acquire, Acquire, Acquire, Acquire, Release, Release, Release,
        TimerStop, Print ''Heap Allocation'', Release]"
  by (simp add: heapAllocationBenchmark_def heap_push_def push_back_def heap_delete_def
      doubling_def numeral_2_eq_2)


lemma pool_timed:
  "timed False (history (projr (poolAllocationBenchmark n True)))
    = [Acquire] @ map Construct [0..<n] @ map Destruct [0..<n] @ [Release]"
  "untimed False (history (projr (poolAllocationBenchmark n True)))
    = [Print ''Pool Allocation'']"
proof -
  let ?es = "[Acquire] @ map Construct [0..<n] @ map Destruct [0..<n] @ [Release]"
  have plain: "\<forall>e \<in> set ?es. e \<noteq> TimerStart \<and> e \<noteq> TimerStop"
    by auto
  have h: "history (projr (poolAllocationBenchmark n True))
         = TimerStart # (?es @ [TimerStop, Print ''Pool Allocation''])"
    by (simp add: poolAllocationBenchmark_value)
  show "timed False (history (projr (poolAllocationBenchmark n True))) = ?es"
    unfolding h using timed_plain[OF plain, of True "[TimerStop, Print ''Pool Allocation'']"]
    by (simp del: append.simps)
  show "untimed False (history (projr (poolAllocationBenchmark n True)))
        = [Print ''Pool Allocation'']"
    unfolding h using untimed_plain[OF plain, of True "[TimerStop, Print ''Pool Allocation'']"]
    by (simp del: append.simps)
qed


text \<open>When \<open>malloc\<close> returns the null pointer, the first construction uses it.\<close>

lemma pool_null_region_faults: "poolAllocationBenchmark (Suc n) False = Inl NullPointer"
proof -
  let ?p0 = "\<lparr>region = None, constructions = 0, destructions = 0, history = [TimerStart]\<rparr>"
  have "for_loop (Suc k) placement_new ?p0 = Inl NullPointer" for k
    by (induction k) (simp_all add: for_loop_Suc placement_new_def)
  then show ?thesis by (simp add: poolAllocationBenchmark_def)
qed

subsection \<open>The two field scans\<close>

lemma fold_index_foldl:
  "n \<le> length vs \<Longrightarrow> fold (\<lambda>k s. f s (vs ! k)) [0..<n] s = foldl f s (take n vs)"
  by (induction n) (simp_all add: take_Suc_conv_app_nth)

lemma soa_scan_value:
  assumes "n \<le> length (ParticlesSoA.x soa)"
  shows "soa_scan fadd fzero soa n = Inr (foldl fadd fzero (take n (ParticlesSoA.x soa)))"
proof -
  have "soa_scan fadd fzero soa n
      = Inr (fold (\<lambda>k s. fadd s (ParticlesSoA.x soa ! k)) [0..<n] fzero)"
    unfolding soa_scan_def
    by (rule for_loop_total) (use assms in \<open>simp add: read_elem_def\<close>)
  then show ?thesis using assms by (simp add: fold_index_foldl)
qed

lemma aos_scan_as_soa:
  "aos_scan fadd fzero aos n
     = soa_scan fadd fzero \<lparr>ParticlesSoA.x = map ParticleAoS.x aos, y = ys, z = zs\<rparr> n"
proof -
  have "(\<lambda>k sum. bind_res (read_elem aos k) (\<lambda>p. Inr (fadd sum (ParticleAoS.x p))))
      = (\<lambda>k sum. bind_res (read_elem (map ParticleAoS.x aos) k) (\<lambda>v. Inr (fadd sum v)))"
    by (intro ext) (simp add: read_elem_def)
  then show ?thesis by (simp add: aos_scan_def soa_scan_def)
qed

lemma scans_equal:
  assumes "map ParticleAoS.x aos = ParticlesSoA.x soa"
  shows "aos_scan fadd fzero aos n = soa_scan fadd fzero soa n"
proof -
  have "soa_scan fadd fzero soa n
      = soa_scan fadd fzero \<lparr>ParticlesSoA.x = map ParticleAoS.x aos, y = [], z = []\<rparr> n"
    using assms by (simp add: soa_scan_def)
  then show ?thesis using aos_scan_as_soa[of fadd fzero aos n "[]" "[]"] by simp
qed

lemma runSoABenchmark_value:
  "runSoABenchmark fadd fzero ms
     = Inr \<lparr>printed_label = ''SoA read'', printed_ms = ms,
            printed_sum = foldl fadd fzero (replicate NUM_PARTICLES fzero),
            trace = [Acquire, Acquire, Acquire, TimerStart, Pattern, TimerStop,
                     Print ''SoA read'', Release, Release, Release]\<rparr>"
  by (simp add: runSoABenchmark_def ParticlesSoA_ctor_def soa_scan_value)

lemma runAoSBenchmark_value:
  "runAoSBenchmark fadd fzero ms
     = Inr \<lparr>printed_label = ''AoS read'', printed_ms = ms,
            printed_sum = foldl fadd fzero (replicate NUM_PARTICLES fzero),
            trace = [Acquire, TimerStart, Pattern, TimerStop, Print ''AoS read'', Release]\<rparr>"
proof -
  let ?aos = "replicate NUM_PARTICLES \<lparr>ParticleAoS.x = fzero, y = fzero, z = fzero\<rparr>"
  have "aos_scan fadd fzero ?aos NUM_PARTICLES
      = soa_scan fadd fzero \<lparr>ParticlesSoA.x = map ParticleAoS.x ?aos, y = [], z = []\<rparr> NUM_PARTICLES"
    by (rule aos_scan_as_soa)
  also have "\<dots> = Inr (foldl fadd fzero (replicate NUM_PARTICLES fzero))"
    by (subst soa_scan_value) simp_all
  finally show ?thesis by (simp add: runAoSBenchmark_def)
qed

subsection \<open>The two main programs that allocate\<close>

lemma main_align_success:
  assumes "op_new (sizeof_UnalignedStruct * NUM_STRUCTS) = Some a"
      and "acquire_aligned aligned_alloc = Some b"
  shows "main_align ndebug op_new aligned_alloc ms1 ms2 =
     \<lparr>status = Returned 0,
      events = [Print ''Testing cache line alignment impact...'', Acquire, Memset, Acquire, Memset,
                TimerStart, Pattern, TimerStop, Print ''Unaligned access'',
                TimerStart, Pattern, TimerStop, Print ''Aligned access'',
                Release, Release]\<rparr>"
  by (simp add: main_align_def assms benchmarkAccess_zero_unaligned benchmarkAccess_zero_aligned)

lemma main_align_alloc_fails:
  assumes "op_new (sizeof_UnalignedStruct * NUM_STRUCTS) = Some a"
      and "acquire_aligned aligned_alloc = None"
  shows "main_align ndebug op_new aligned_alloc ms1 ms2 =
     \<lparr>status = (if ndebug then Undefined NullPointer else Aborted),
      events = [Print ''Testing cache line alignment impact...'', Acquire, Memset]\<rparr>"
  by (simp add: main_align_def assms)

lemma runBenchmark_value:
  assumes "length block = DATA_SIZE"
  shows "runBenchmark numa_run_on_node (Some block) node label =
     Inr (Some (map (\<lambda>j. block ! j + word_of_nat (hits NUM_ITERATIONS_numa j)) [0..<DATA_SIZE]),
          [BindNode node, TimerStart, Pattern, TimerStop, Print label])"
  by (simp add: runBenchmark_def access_loop_value[OF assms])

lemma main_numa_unavailable:
  "main_numa (- 1) numa_alloc_onnode numa_run_on_node =
     \<lparr>status = Returned 1, events = [PrintErr ''NUMA is not available on this system.'']\<rparr>"
  by (simp add: main_numa_def)

lemma main_numa_success:
  assumes "numa_available \<noteq> - 1"
      and "numa_alloc_onnode DATA_SIZE 0 = Some block"
      and "length block = DATA_SIZE"
  shows "main_numa numa_available numa_alloc_onnode numa_run_on_node =
     \<lparr>status = Returned 0,
      events = [Acquire, Print ''NUMA Memory Access Benchmark'',
                BindNode 0, TimerStart, Pattern, TimerStop, Print ''Local access (Node 0)'',
                BindNode 1, TimerStart, Pattern, TimerStop, Print ''Remote access (Node 1)'',
                Release]\<rparr>"
proof -
  let ?b1 = "map (\<lambda>j. block ! j + word_of_nat (hits NUM_ITERATIONS_numa j)) [0..<DATA_SIZE]"
  have l1: "length ?b1 = DATA_SIZE" by simp
  show ?thesis
    by (simp add: main_numa_def assms(1,2) runBenchmark_value[OF assms(3)]
        runBenchmark_value[OF l1])
qed


subsection \<open>Field offsets and cache lines\<close>

lemma false_layout:
  "offset_x_false = 0" "offset_y_false = 4" "alignof_false = 4"
  by (simp_all add: offset_x_false_def offset_y_false_def alignof_false_def
      SharedDataFalseSharing_members_def sizeof_int_def align_up_def struct_align_def)

lemma nofalse_layout:
  "offset_x_nofalse = 0" "offset_y_nofalse = 64" "alignof_nofalse = 64"
  by (simp_all add: offset_x_nofalse_def offset_y_nofalse_def alignof_nofalse_def
      SharedDataNoFalseSharing_members_def sizeof_int_def align_up_def struct_align_def)

lemma div64_one: "64 \<le> m \<Longrightarrow> m < 128 \<Longrightarrow> m div 64 = (1::nat)"
  by (rule div_nat_eqI) simp_all

lemma line_split: "cache_line (base + k) = cache_line base + (base mod 64 + k) div 64"
proof -
  have "base + k = (base mod 64 + k) + (base div 64) * 64"
    by (simp add: algebra_simps)
  then have "(base + k) div 64 = ((base mod 64 + k) + (base div 64) * 64) div 64"
    by (rule arg_cong)
  also have "\<dots> = base div 64 + (base mod 64 + k) div 64"
    by (rule div_mult_self1) simp
  finally show ?thesis by (simp add: cache_line_def)
qed

lemma line_same: "base mod 64 + k < 64 \<Longrightarrow> cache_line (base + k) = cache_line base"
  by (simp add: line_split)

lemma line_next:
  "64 \<le> base mod 64 + k \<Longrightarrow> base mod 64 + k < 128 \<Longrightarrow>
     cache_line (base + k) = cache_line base + 1"
  by (simp add: line_split div64_one)

lemma field_lines_at:
  "field_lines (base + k) = (cache_line (base + k), cache_line (base + (k + 3)))"
  by (simp add: field_lines_def sizeof_int_def ac_simps)

text \<open>Where the two fields lie, by the address \<open>base\<close> of the struct. In the shared-line
  struct they share a line when the struct starts at most 56 bytes into a line, and are in
  different lines when it starts 60 bytes into one. In the separated-lines struct, which
  \<open>alignas(64)\<close> puts at the start of a line, \<open>x\<close> lies in that line and \<open>y\<close> in the next.\<close>

lemma field_lines_by_base:
  "offset_y_false = offset_x_false + sizeof_int
   \<and> (base mod 64 \<le> 56 \<longrightarrow> same_line (base + offset_x_false) (base + offset_y_false))
   \<and> (base mod 64 = 60 \<longrightarrow> separate_lines (base + offset_x_false) (base + offset_y_false))
   \<and> offset_y_nofalse = offset_x_nofalse + 64
   \<and> (base mod alignof_nofalse = 0 \<longrightarrow>
        separate_lines (base + offset_x_nofalse) (base + offset_y_nofalse)
        \<and> field_lines (base + offset_x_nofalse) = (cache_line base, cache_line base)
        \<and> field_lines (base + offset_y_nofalse) = (cache_line base + 1, cache_line base + 1))"
proof -
  have a: "same_line (base + 0) (base + 4)" if "base mod 64 \<le> 56"
  proof -
    have "cache_line (base + 0) = cache_line base" "cache_line (base + (0 + 3)) = cache_line base"
      "cache_line (base + 4) = cache_line base" "cache_line (base + (4 + 3)) = cache_line base"
      using that by (simp_all add: line_same)
    then show ?thesis unfolding same_line_def field_lines_at by simp
  qed
  have b: "separate_lines (base + 0) (base + 4)" if "base mod 64 = 60"
  proof -
    have "cache_line (base + (0 + 3)) = cache_line base"
      "cache_line (base + 4) = cache_line base + 1"
      using that by (simp_all add: line_same line_next)
    then show ?thesis unfolding separate_lines_def field_lines_at by simp
  qed
  have c: "separate_lines (base + 0) (base + 64)
        \<and> field_lines (base + 0) = (cache_line base, cache_line base)
        \<and> field_lines (base + 64) = (cache_line base + 1, cache_line base + 1)"
    if "base mod 64 = 0"
  proof -
    have "cache_line (base + 0) = cache_line base" "cache_line (base + (0 + 3)) = cache_line base"
      "cache_line (base + 64) = cache_line base + 1"
      "cache_line (base + (64 + 3)) = cache_line base + 1"
      using that by (simp_all add: line_same line_next)
    then show ?thesis unfolding separate_lines_def field_lines_at by simp
  qed
  show ?thesis using a b c by (simp add: false_layout nofalse_layout sizeof_int_def)
qed

subsection \<open>Two threads, each on its own field\<close>

lemma increment_step_own:
  assumes lens: "\<And>v d. load (store v d) = v"
      and inv: "actor_inv n (load d) a"
      and step: "increment_step load store n (a, d) = (a', d')"
  shows "actor_inv n (load d') a'
       \<and> steps_done n a' = min (Suc (steps_done n a)) (2 * n + 1)"
proof (cases "place a")
  case AtLoop
  show ?thesis
  proof (cases "counter a < n")
    case True
    then show ?thesis using AtLoop inv step
      by (auto simp: increment_step_def actor_inv_def steps_done_def)
  next
    case False
    then show ?thesis using AtLoop inv step
      by (auto simp: increment_step_def actor_inv_def steps_done_def)
  qed
next
  case AtStore
  then show ?thesis using inv step lens
    by (auto simp: increment_step_def actor_inv_def steps_done_def)
next
  case Exited
  then show ?thesis using inv step
    by (auto simp: increment_step_def actor_inv_def steps_done_def)
qed

lemma increment_step_other:
  assumes "\<And>v d. other (store v d) = other d"
      and "increment_step load store n (a, d) = (a', d')"
  shows "other d' = other d"
  using assms by (cases "place a") (auto simp: increment_step_def split: if_splits)

lemma run_invariant:
  assumes l11: "\<And>v d. load1 (store1 v d) = v"
      and l21: "\<And>v d. load2 (store1 v d) = load2 d"
      and l22: "\<And>v d. load2 (store2 v d) = v"
      and l12: "\<And>v d. load1 (store2 v d) = load1 d"
      and "actor_inv n (load1 (shared s)) (t1 s)"
      and "actor_inv n (load2 (shared s)) (t2 s)"
  shows "actor_inv n (load1 (shared (fold (sched_step (increment_step load1 store1 n)
                                         (increment_step load2 store2 n)) sched s)))
                     (t1 (fold (sched_step (increment_step load1 store1 n)
                                         (increment_step load2 store2 n)) sched s))
       \<and> actor_inv n (load2 (shared (fold (sched_step (increment_step load1 store1 n)
                                         (increment_step load2 store2 n)) sched s)))
                     (t2 (fold (sched_step (increment_step load1 store1 n)
                                         (increment_step load2 store2 n)) sched s))
       \<and> steps_done n (t1 (fold (sched_step (increment_step load1 store1 n)
                                         (increment_step load2 store2 n)) sched s))
             = min (steps_done n (t1 s) + count_list sched T1) (2 * n + 1)
       \<and> steps_done n (t2 (fold (sched_step (increment_step load1 store1 n)
                                         (increment_step load2 store2 n)) sched s))
             = min (steps_done n (t2 s) + count_list sched T2) (2 * n + 1)"
  using assms(5,6)
proof (induction sched arbitrary: s)
  case Nil
  have "steps_done n a \<le> 2 * n + 1" if "actor_inv n v a" for v a
    using that by (cases "place a") (auto simp: actor_inv_def steps_done_def)
  then show ?case using Nil by (simp add: min_absorb1)
next
  case (Cons t sched)
  let ?f1 = "increment_step load1 store1 n"
  let ?f2 = "increment_step load2 store2 n"
  let ?s = "sched_step ?f1 ?f2 t s"
  have step: "actor_inv n (load1 (shared ?s)) (t1 ?s) \<and> actor_inv n (load2 (shared ?s)) (t2 ?s)
      \<and> steps_done n (t1 ?s)
            = (if t = T1 then min (Suc (steps_done n (t1 s))) (2 * n + 1) else steps_done n (t1 s))
      \<and> steps_done n (t2 ?s)
            = (if t = T2 then min (Suc (steps_done n (t2 s))) (2 * n + 1) else steps_done n (t2 s))"
  proof (cases t)
    case T1
    obtain a d where r: "?f1 (t1 s, shared s) = (a, d)" by (cases "?f1 (t1 s, shared s)")
    have "actor_inv n (load1 d) a \<and> steps_done n a = min (Suc (steps_done n (t1 s))) (2 * n + 1)"
      using increment_step_own[OF l11 Cons.prems(1) r] .
    moreover have "load2 d = load2 (shared s)"
      using increment_step_other[of load2 store1, OF l21 r] .
    ultimately show ?thesis using T1 r Cons.prems(2) by (simp add: sched_step_def)
  next
    case T2
    obtain a d where r: "?f2 (t2 s, shared s) = (a, d)" by (cases "?f2 (t2 s, shared s)")
    have "actor_inv n (load2 d) a \<and> steps_done n a = min (Suc (steps_done n (t2 s))) (2 * n + 1)"
      using increment_step_own[OF l22 Cons.prems(2) r] .
    moreover have "load1 d = load1 (shared s)"
      using increment_step_other[of load1 store2, OF l12 r] .
    ultimately show ?thesis using T2 r Cons.prems(1) by (simp add: sched_step_def)
  qed
  then have "actor_inv n (load1 (shared ?s)) (t1 ?s)" "actor_inv n (load2 (shared ?s)) (t2 ?s)"
    by simp_all
  from Cons.IH[OF this] step show ?case
    by (cases t) (simp_all add: min_def)
qed


lemma run_threads_result:
  assumes l11: "\<And>v d. load1 (store1 v d) = v"
      and l21: "\<And>v d. load2 (store1 v d) = load2 d"
      and l22: "\<And>v d. load2 (store2 v d) = v"
      and l12: "\<And>v d. load1 (store2 v d) = load1 d"
      and z1: "load1 d0 = 0" and z2: "load2 d0 = 0"
  shows "(joined (run_threads (increment_step load1 store1 n) (increment_step load2 store2 n) sched d0)
            \<longrightarrow> load1 (shared (run_threads (increment_step load1 store1 n)
                                   (increment_step load2 store2 n) sched d0)) = word_of_nat n
              \<and> load2 (shared (run_threads (increment_step load1 store1 n)
                                   (increment_step load2 store2 n) sched d0)) = word_of_nat n)
       \<and> (2 * n + 1 \<le> count_list sched T1 \<and> 2 * n + 1 \<le> count_list sched T2
            \<longrightarrow> joined (run_threads (increment_step load1 store1 n)
                          (increment_step load2 store2 n) sched d0))"
proof -
  let ?init = "\<lparr>shared = d0, t1 = start_actor, t2 = start_actor\<rparr>"
  let ?s = "fold (sched_step (increment_step load1 store1 n) (increment_step load2 store2 n))
              sched ?init"
  have i1: "actor_inv n (load1 (shared ?init)) (t1 ?init)"
    and i2: "actor_inv n (load2 (shared ?init)) (t2 ?init)"
    using z1 z2 by (simp_all add: actor_inv_def start_actor_def)
  note inv = run_invariant[of load1 store1 load2 store2 n ?init sched, OF l11 l21 l22 l12 i1 i2]
  have s1: "steps_done n (t1 ?s) = min (count_list sched T1) (2 * n + 1)"
    and s2: "steps_done n (t2 ?s) = min (count_list sched T2) (2 * n + 1)"
    using inv by (simp_all add: steps_done_def start_actor_def)
  have a1: "actor_inv n (load1 (shared ?s)) (t1 ?s)"
    and a2: "actor_inv n (load2 (shared ?s)) (t2 ?s)"
    using inv by simp_all
  have done_exited: "place a = Exited" if "actor_inv n v a" "steps_done n a = 2 * n + 1" for v a
    using that by (cases "place a") (auto simp: actor_inv_def steps_done_def)
  have final: "load1 (shared ?s) = word_of_nat n \<and> load2 (shared ?s) = word_of_nat n"
    if "joined ?s"
    using that a1 a2 by (simp add: joined_def actor_inv_def)
  have progress: "joined ?s"
    if "2 * n + 1 \<le> count_list sched T1" "2 * n + 1 \<le> count_list sched T2"
  proof -
    have "steps_done n (t1 ?s) = 2 * n + 1" "steps_done n (t2 ?s) = 2 * n + 1"
      using s1 s2 that by simp_all
    then show ?thesis using done_exited[OF a1] done_exited[OF a2] by (simp add: joined_def)
  qed
  show ?thesis unfolding run_threads_def using final progress by blast
qed

text \<open>The interleaving of loads and stores matters in this model: two threads that
  increment the same field can lose an update.\<close>

lemma same_field_loses_update:
  "SharedDataFalseSharing.x
     (shared (run_threads (threadFunc1_false 1) (threadFunc1_false 1) [T1, T2, T1, T2, T1, T2]
                dataFalse)) = 1
   \<and> joined (run_threads (threadFunc1_false 1) (threadFunc1_false 1) [T1, T2, T1, T2, T1, T2]
                dataFalse)"
  by (simp add: run_threads_def sched_step_def threadFunc1_false_def increment_step_def
      start_actor_def dataFalse_def joined_def)


subsection \<open>C1: no increment is lost\<close>

text \<open>
  Claim C1. In the shared-line and in the separated-lines experiment alike, once both
  threads have been joined each of the two counters \<open>x\<close> and \<open>y\<close> holds exactly the
  iteration count: no increment is lost, whatever the interleaving of the loads and stores
  of the two threads, because each thread writes its own field only. Both threads do
  exit, as soon as the scheduler has given each of them its \<open>2 * n + 1\<close> steps. The
  count of the program, 1,000,000,000, fits an \<open>int\<close>.
\<close>

theorem no_lost_update:
  "(joined (runFalseSharingBenchmark n sched) \<longrightarrow>
      SharedDataFalseSharing.x (shared (runFalseSharingBenchmark n sched)) = word_of_nat n
      \<and> SharedDataFalseSharing.y (shared (runFalseSharingBenchmark n sched)) = word_of_nat n)
   \<and> (joined (runNoFalseSharingBenchmark n sched) \<longrightarrow>
      SharedDataNoFalseSharing.x (shared (runNoFalseSharingBenchmark n sched)) = word_of_nat n
      \<and> SharedDataNoFalseSharing.y (shared (runNoFalseSharingBenchmark n sched)) = word_of_nat n)
   \<and> (2 * n + 1 \<le> count_list sched T1 \<and> 2 * n + 1 \<le> count_list sched T2 \<longrightarrow>
        joined (runFalseSharingBenchmark n sched) \<and> joined (runNoFalseSharingBenchmark n sched))
   \<and> sint (word_of_nat NUM_ITERATIONS_share :: int32) = 1000000000"
proof -
  note shared_line = run_threads_result[of SharedDataFalseSharing.x
      "\<lambda>v d. d\<lparr>SharedDataFalseSharing.x := v\<rparr>" SharedDataFalseSharing.y
      "\<lambda>v d. d\<lparr>SharedDataFalseSharing.y := v\<rparr>" dataFalse n sched]
  note padded = run_threads_result[of SharedDataNoFalseSharing.x
      "\<lambda>v d. d\<lparr>SharedDataNoFalseSharing.x := v\<rparr>" SharedDataNoFalseSharing.y
      "\<lambda>v d. d\<lparr>SharedDataNoFalseSharing.y := v\<rparr>" dataNoFalse n sched]
  have f: "(joined (runFalseSharingBenchmark n sched) \<longrightarrow>
      SharedDataFalseSharing.x (shared (runFalseSharingBenchmark n sched)) = word_of_nat n
      \<and> SharedDataFalseSharing.y (shared (runFalseSharingBenchmark n sched)) = word_of_nat n)
     \<and> (2 * n + 1 \<le> count_list sched T1 \<and> 2 * n + 1 \<le> count_list sched T2 \<longrightarrow>
        joined (runFalseSharingBenchmark n sched))"
    unfolding runFalseSharingBenchmark_def threadFunc1_false_def threadFunc2_false_def
    by (rule shared_line) (simp_all add: dataFalse_def)
  have p: "(joined (runNoFalseSharingBenchmark n sched) \<longrightarrow>
      SharedDataNoFalseSharing.x (shared (runNoFalseSharingBenchmark n sched)) = word_of_nat n
      \<and> SharedDataNoFalseSharing.y (shared (runNoFalseSharingBenchmark n sched)) = word_of_nat n)
     \<and> (2 * n + 1 \<le> count_list sched T1 \<and> 2 * n + 1 \<le> count_list sched T2 \<longrightarrow>
        joined (runNoFalseSharingBenchmark n sched))"
    unfolding runNoFalseSharingBenchmark_def threadFunc1_nofalse_def threadFunc2_nofalse_def
    by (rule padded) (simp_all add: dataNoFalse_def)
  have c: "sint (word_of_nat NUM_ITERATIONS_share :: int32) = 1000000000"
    by (simp add: NUM_ITERATIONS_share_def)
  show ?thesis using f p c by blast
qed

theorem no_lost_update_witness:
  "2 * 2 + 1 \<le> count_list [T1, T2, T2, T1, T1, T1, T2, T2, T1, T2] T1
   \<and> 2 * 2 + 1 \<le> count_list [T1, T2, T2, T1, T1, T1, T2, T2, T1, T2] T2
   \<and> joined (runFalseSharingBenchmark 2 [T1, T2, T2, T1, T1, T1, T2, T2, T1, T2])
   \<and> SharedDataFalseSharing.x
        (shared (runFalseSharingBenchmark 2 [T1, T2, T2, T1, T1, T1, T2, T2, T1, T2])) = 2
   \<and> SharedDataFalseSharing.y
        (shared (runFalseSharingBenchmark 2 [T1, T2, T2, T1, T1, T1, T2, T2, T1, T2])) = 2
   \<and> joined (runNoFalseSharingBenchmark 2 [T1, T2, T2, T1, T1, T1, T2, T2, T1, T2])
   \<and> SharedDataNoFalseSharing.x
        (shared (runNoFalseSharingBenchmark 2 [T1, T2, T2, T1, T1, T1, T2, T2, T1, T2])) = 2
   \<and> SharedDataNoFalseSharing.y
        (shared (runNoFalseSharingBenchmark 2 [T1, T2, T2, T1, T1, T1, T2, T2, T1, T2])) = 2"
proof -
  let ?sched = "[T1, T2, T2, T1, T1, T1, T2, T2, T1, T2]"
  have h1: "2 * 2 + 1 \<le> count_list ?sched T1" by simp
  have h2: "2 * 2 + 1 \<le> count_list ?sched T2" by simp
  note th = no_lost_update[of 2 ?sched]
  have j: "joined (runFalseSharingBenchmark 2 ?sched)" "joined (runNoFalseSharingBenchmark 2 ?sched)"
    using th h1 h2 by blast+
  have v: "SharedDataFalseSharing.x (shared (runFalseSharingBenchmark 2 ?sched)) = word_of_nat 2"
    "SharedDataFalseSharing.y (shared (runFalseSharingBenchmark 2 ?sched)) = word_of_nat 2"
    "SharedDataNoFalseSharing.x (shared (runNoFalseSharingBenchmark 2 ?sched)) = word_of_nat 2"
    "SharedDataNoFalseSharing.y (shared (runNoFalseSharingBenchmark 2 ?sched)) = word_of_nat 2"
    using th j by blast+
  have two: "(word_of_nat 2 :: int32) = 2" by simp
  show ?thesis using h1 h2 j v unfolding two by blast
qed


subsection \<open>C2: the element-major and the field-major scan agree\<close>

text \<open>
  Claim C2. Over logically identical data (the \<open>x\<close> fields of the array of structs are,
  in order, the elements of the \<open>x\<close> vector of the struct of arrays) the element-major
  scan and the field-major scan produce the same accumulator, for every count: both add
  the same values in the same order with the same addition, whatever that addition is. In
  the program both run over \<open>NUM_PARTICLES\<close> zero-filled elements, and the two printed sums
  are equal.
\<close>

theorem scans_agree:
  assumes "map ParticleAoS.x aos = ParticlesSoA.x soa"
  shows "aos_scan fadd fzero aos n = soa_scan fadd fzero soa n
       \<and> (n \<le> length aos \<longrightarrow>
            aos_scan fadd fzero aos n = Inr (foldl fadd fzero (take n (map ParticleAoS.x aos))))
       \<and> (\<exists>ra rs. runAoSBenchmark fadd fzero msa = Inr ra
                \<and> runSoABenchmark fadd fzero mss = Inr rs
                \<and> printed_sum ra = printed_sum rs)"
proof -
  have eq: "aos_scan fadd fzero aos n = soa_scan fadd fzero soa n"
    by (rule scans_equal[OF assms])
  have len: "length (ParticlesSoA.x soa) = length aos"
    using assms by (metis length_map)
  have "n \<le> length aos \<longrightarrow>
            aos_scan fadd fzero aos n = Inr (foldl fadd fzero (take n (map ParticleAoS.x aos)))"
    using eq soa_scan_value[of n soa fadd fzero] len assms by simp
  then show ?thesis using eq by (simp add: runAoSBenchmark_value runSoABenchmark_value)
qed

theorem scans_agree_witness:
  "map ParticleAoS.x [\<lparr>ParticleAoS.x = 1, y = 2, z = 3\<rparr>, \<lparr>ParticleAoS.x = 4, y = 5, z = 6\<rparr>]
     = ParticlesSoA.x \<lparr>ParticlesSoA.x = [1, 4], y = [2, 5], z = [3, 6 :: int]\<rparr>
   \<and> aos_scan (+) 0 [\<lparr>ParticleAoS.x = 1, y = 2, z = 3\<rparr>, \<lparr>ParticleAoS.x = 4, y = 5, z = 6\<rparr>] 2
       = soa_scan (+) 0 \<lparr>ParticlesSoA.x = [1, 4], y = [2, 5], z = [3, 6 :: int]\<rparr> 2
   \<and> aos_scan (+) 0 [\<lparr>ParticleAoS.x = 1, y = 2, z = 3\<rparr>, \<lparr>ParticleAoS.x = 4, y = 5, z = 6 :: int\<rparr>] 2
       = Inr 5"
proof -
  let ?aos = "[\<lparr>ParticleAoS.x = 1, y = 2, z = 3\<rparr>, \<lparr>ParticleAoS.x = 4, y = 5, z = 6 :: int\<rparr>]"
  let ?soa = "\<lparr>ParticlesSoA.x = [1, 4], y = [2, 5], z = [3, 6 :: int]\<rparr>"
  have h: "map ParticleAoS.x ?aos = ParticlesSoA.x ?soa" by simp
  note agree = scans_agree[OF h, of "(+)" 0 2 0 0]
  have same: "aos_scan (+) 0 ?aos 2 = soa_scan (+) 0 ?soa 2"
    using agree by blast
  have "2 \<le> length ?aos \<longrightarrow>
          aos_scan (+) 0 ?aos 2 = Inr (foldl (+) 0 (take 2 (map ParticleAoS.x ?aos)))"
    using agree by blast
  moreover have "2 \<le> length ?aos" by simp
  ultimately have "aos_scan (+) 0 ?aos 2 = Inr (foldl (+) 0 (take 2 (map ParticleAoS.x ?aos)))"
    by (rule mp)
  also have "foldl (+) 0 (take 2 (map ParticleAoS.x ?aos)) = 5" by simp
  finally have val: "aos_scan (+) 0 ?aos 2 = Inr 5" .
  show ?thesis using h same val by blast
qed

subsection \<open>C3: aligned acquisition\<close>

text \<open>
  Claim C3. When the aligned acquisition of \<open>main\<close> succeeds, the base address it returns is
  a multiple of the alignment requested, 64 (this is the contract of the platform's
  \<open>aligned_alloc\<close>, which \<open>main\<close> calls with \<open>CACHE_LINE_SIZE\<close>); and since an \<open>AlignedStruct\<close>
  occupies exactly 64 bytes, the address of every element of the array is a multiple of 64.
\<close>

theorem aligned_elements_on_line_boundary:
  assumes "aligned_alloc_contract aligned_alloc"
      and "acquire_aligned aligned_alloc = Some base"
  shows "base mod CACHE_LINE_SIZE = 0
       \<and> sizeof_AlignedStruct = 64
       \<and> element_address base k mod 64 = 0"
proof -
  have b: "base mod CACHE_LINE_SIZE = 0"
    using assms by (simp add: aligned_alloc_contract_def acquire_aligned_def)
  then have "(base + k * 64) mod 64 = 0" by (simp add: CACHE_LINE_SIZE_def)
  then show ?thesis using b by (simp add: element_address_def sizeof_AlignedStruct_64)
qed

theorem aligned_elements_on_line_boundary_witness:
  "aligned_alloc_contract (bump_alloc 1000)
   \<and> acquire_aligned (bump_alloc 1000) = Some 1024
   \<and> 1024 mod CACHE_LINE_SIZE = 0
   \<and> sizeof_AlignedStruct = 64
   \<and> element_address 1024 999999 mod 64 = 0"
proof -
  have h1: "aligned_alloc_contract (bump_alloc 1000)" by (rule bump_alloc_contract)
  have h2: "acquire_aligned (bump_alloc 1000) = Some 1024"
    by (simp add: acquire_aligned_def bump_alloc_def align_up_def CACHE_LINE_SIZE_def)
  show ?thesis using aligned_elements_on_line_boundary[OF h1 h2, of 999999] h1 h2 by blast
qed

subsection \<open>C4: the pool destroys every element once, before it frees the region\<close>

text \<open>
  Claim C4. For every count \<open>n\<close>, a run of the pool benchmark whose \<open>malloc\<close> succeeded
  constructs \<open>n\<close> elements in place and runs the destructor \<open>n\<close> times, exactly once for
  each constructed element \<open>k < n\<close>, and all of that before the one \<open>free\<close> of the region:
  the history of the run is the acquisition, the constructions of elements 0 to \<open>n - 1\<close>,
  their destructions, and then the release.
\<close>

theorem pool_destroys_each_once_before_free:
  "\<exists>p. poolAllocationBenchmark n True = Inr p
       \<and> constructions p = n \<and> destructions p = n \<and> region p = None
       \<and> history p = [TimerStart, Acquire] @ map Construct [0..<n] @ map Destruct [0..<n]
                        @ [Release, TimerStop, Print ''Pool Allocation'']
       \<and> count_list (history p) (Construct k) = (if k < n then 1 else 0)
       \<and> count_list (history p) (Destruct k) = (if k < n then 1 else 0)
       \<and> count_list (history p) Release = 1"
  by (simp add: poolAllocationBenchmark_value count_Construct count_Destruct count_upt)

subsection \<open>C5: where allocation falls with respect to the timer\<close>

text \<open>
  Claim C5 says that every experiment acquires its block, starts the timer, runs the access
  pattern, stops the timer and releases the block, in this order, so that acquisition and
  release are never timed. The heap benchmark and the pool benchmark do not: they start the
  timer before they allocate.
\<close>

theorem timer_excludes_allocation_counterexample:
  "\<not> sequenced (heapAllocationBenchmark doubling 1)
   \<and> \<not> sequenced (history (projr (poolAllocationBenchmark 1 True)))"
  by (simp add: sequenced_def poolAllocationBenchmark_value
      heapAllocationBenchmark_def heap_push_def push_back_def heap_delete_def doubling_def)

text \<open>
  Claim C5, as amended. The alignment program, the two scans over particles and the NUMA
  program acquire their blocks, then start the timer, run the access pattern and stop the
  timer, and only then release the blocks. The two-thread experiments work on global
  structs: they acquire and release nothing, and between starting and stopping the timer
  they spawn both threads and join both. The pool and the heap benchmark start the timer
  first. For the pool the acquisition of the region, every construction, every destruction
  and the release all lie inside the timed interval, and nothing but the output outside.
  For the heap benchmark, with any growth policy of the vector of pointers, everything
  inside the timed interval is an acquisition or a release (the \<open>new\<close> and the \<open>delete\<close> of
  every object, and the buffers of the vector as it grows); the one allocation event
  outside is the release of the last buffer of the vector, when the function returns.
\<close>

theorem timer_excludes_allocation_amended:
  assumes "op_new (sizeof_UnalignedStruct * NUM_STRUCTS) = Some a"
      and "acquire_aligned aligned_alloc = Some b"
      and "numa_available \<noteq> - 1"
      and "numa_alloc_onnode DATA_SIZE 0 = Some block"
      and "length block = DATA_SIZE"
      and "\<And>c. c < grow c"
  shows "events (main_align ndebug op_new aligned_alloc ms1 ms2)
           = [Print ''Testing cache line alignment impact...'', Acquire, Memset, Acquire, Memset,
              TimerStart, Pattern, TimerStop, Print ''Unaligned access'',
              TimerStart, Pattern, TimerStop, Print ''Aligned access'',
              Release, Release]
       \<and> sequenced (events (main_align ndebug op_new aligned_alloc ms1 ms2))
       \<and> events (main_numa numa_available numa_alloc_onnode numa_run_on_node)
           = [Acquire, Print ''NUMA Memory Access Benchmark'',
              BindNode 0, TimerStart, Pattern, TimerStop, Print ''Local access (Node 0)'',
              BindNode 1, TimerStart, Pattern, TimerStop, Print ''Remote access (Node 1)'',
              Release]
       \<and> sequenced (events (main_numa numa_available numa_alloc_onnode numa_run_on_node))
       \<and> runAoSBenchmark fadd fzero ms_aos
           = Inr \<lparr>printed_label = ''AoS read'', printed_ms = ms_aos,
                  printed_sum = foldl fadd fzero (replicate NUM_PARTICLES fzero),
                  trace = [Acquire, TimerStart, Pattern, TimerStop, Print ''AoS read'', Release]\<rparr>
       \<and> sequenced (trace (projr (runAoSBenchmark fadd fzero ms_aos)))
       \<and> runSoABenchmark fadd fzero ms_soa
           = Inr \<lparr>printed_label = ''SoA read'', printed_ms = ms_soa,
                  printed_sum = foldl fadd fzero (replicate NUM_PARTICLES fzero),
                  trace = [Acquire, Acquire, Acquire, TimerStart, Pattern, TimerStop,
                           Print ''SoA read'', Release, Release, Release]\<rparr>
       \<and> sequenced (trace (projr (runSoABenchmark fadd fzero ms_soa)))
       \<and> walk Acquiring runFalseSharingBenchmark_events = Some Stopped
       \<and> timed False runFalseSharingBenchmark_events = [Spawn 1, Spawn 2, Join 1, Join 2]
       \<and> filter is_alloc runFalseSharingBenchmark_events = []
       \<and> walk Acquiring runNoFalseSharingBenchmark_events = Some Stopped
       \<and> timed False runNoFalseSharingBenchmark_events = [Spawn 1, Spawn 2, Join 1, Join 2]
       \<and> filter is_alloc runNoFalseSharingBenchmark_events = []
       \<and> timed False (history (projr (poolAllocationBenchmark n True)))
            = [Acquire] @ map Construct [0..<n] @ map Destruct [0..<n] @ [Release]
       \<and> untimed False (history (projr (poolAllocationBenchmark n True)))
            = [Print ''Pool Allocation'']
       \<and> (\<exists>pe. heapAllocationBenchmark grow n
                  = TimerStart # pe @ replicate n Release
                      @ [TimerStop, Print ''Heap Allocation'']
                      @ (if n = 0 then [] else [Release])
                \<and> list_all is_alloc pe)
       \<and> list_all is_alloc (timed False (heapAllocationBenchmark grow n))
       \<and> 2 * n \<le> length (timed False (heapAllocationBenchmark grow n))
       \<and> count_list (timed False (heapAllocationBenchmark grow n)) Acquire
            = count_list (timed False (heapAllocationBenchmark grow n)) Release
                + (if n = 0 then 0 else 1)
       \<and> untimed False (heapAllocationBenchmark grow n)
            = Print ''Heap Allocation'' # (if n = 0 then [] else [Release])"
proof -
  have align: "main_align ndebug op_new aligned_alloc ms1 ms2 =
     \<lparr>status = Returned 0,
      events = [Print ''Testing cache line alignment impact...'', Acquire, Memset, Acquire, Memset,
                TimerStart, Pattern, TimerStop, Print ''Unaligned access'',
                TimerStart, Pattern, TimerStop, Print ''Aligned access'',
                Release, Release]\<rparr>"
    using assms(1,2) by (simp add: main_align_success[where a = a and b = b])
  have numa: "main_numa numa_available numa_alloc_onnode numa_run_on_node =
     \<lparr>status = Returned 0,
      events = [Acquire, Print ''NUMA Memory Access Benchmark'',
                BindNode 0, TimerStart, Pattern, TimerStop, Print ''Local access (Node 0)'',
                BindNode 1, TimerStart, Pattern, TimerStop, Print ''Remote access (Node 1)'',
                Release]\<rparr>"
    using assms(3,4,5) by (simp add: main_numa_success[where block = block])
  note heap = heap_timed[of grow n, OF assms(6)]
  show ?thesis
    apply (intro conjI)
    subgoal by (simp add: align)
    subgoal by (simp add: align sequenced_def)
    subgoal by (simp add: numa)
    subgoal by (simp add: numa sequenced_def)
    subgoal by (rule runAoSBenchmark_value)
    subgoal by (simp add: runAoSBenchmark_value sequenced_def)
    subgoal by (rule runSoABenchmark_value)
    subgoal by (simp add: runSoABenchmark_value sequenced_def)
    subgoal by (simp add: runFalseSharingBenchmark_events_def)
    subgoal by (simp add: runFalseSharingBenchmark_events_def)
    subgoal by (simp add: runFalseSharingBenchmark_events_def is_alloc_def)
    subgoal by (simp add: runNoFalseSharingBenchmark_events_def)
    subgoal by (simp add: runNoFalseSharingBenchmark_events_def)
    subgoal by (simp add: runNoFalseSharingBenchmark_events_def is_alloc_def)
    subgoal by (rule pool_timed)
    subgoal by (rule pool_timed)
    subgoal using heap_run[of grow n, OF assms(6)] by blast
    subgoal by (rule heap)
    subgoal by (rule heap)
    subgoal by (rule heap)
    subgoal by (rule heap)
    done
qed

theorem timer_excludes_allocation_amended_witness:
  "bump_alloc 4096 16 (sizeof_UnalignedStruct * NUM_STRUCTS) = Some 4112
   \<and> acquire_aligned (bump_alloc 1000) = Some 1024
   \<and> (0::int) \<noteq> - 1
   \<and> zero_block DATA_SIZE 0 = Some (replicate DATA_SIZE 0)
   \<and> length (replicate DATA_SIZE (0::byte)) = DATA_SIZE
   \<and> (3::nat) < doubling 3
   \<and> sequenced (events (main_align False (bump_alloc 4096 16) (bump_alloc 1000) 7 5))
   \<and> sequenced (events (main_numa 0 zero_block single_node))
   \<and> walk Acquiring runFalseSharingBenchmark_events = Some Stopped
   \<and> timed False (history (projr (poolAllocationBenchmark 2 True)))
        = [Acquire, Construct 0, Construct 1, Destruct 0, Destruct 1, Release]
   \<and> untimed False (heapAllocationBenchmark doubling 2) = [Print ''Heap Allocation'', Release]
   \<and> count_list (timed False (heapAllocationBenchmark doubling 2)) Acquire
        = count_list (timed False (heapAllocationBenchmark doubling 2)) Release + 1"
proof -
  have h1: "bump_alloc 4096 16 (sizeof_UnalignedStruct * NUM_STRUCTS) = Some 4112"
    by (simp add: bump_alloc_def align_up_def)
  have h2: "acquire_aligned (bump_alloc 1000) = Some 1024"
    by (simp add: acquire_aligned_def bump_alloc_def align_up_def CACHE_LINE_SIZE_def)
  have h3: "(0::int) \<noteq> - 1" by simp
  have h4: "zero_block DATA_SIZE 0 = Some (replicate DATA_SIZE 0)" by (simp add: zero_block_def)
  have h5: "length (replicate DATA_SIZE (0::byte)) = DATA_SIZE" by simp
  have h6: "c < doubling c" for c by (rule doubling_grows)
  note am = timer_excludes_allocation_amended[where op_new = "bump_alloc 4096 16" and a = 4112
      and aligned_alloc = "bump_alloc 1000" and b = 1024 and numa_available = 0
      and numa_alloc_onnode = zero_block and block = "replicate DATA_SIZE 0"
      and grow = doubling
      and ndebug = False and ?ms1.0 = 7 and ?ms2.0 = 5 and numa_run_on_node = single_node
      and n = 2 and fadd = "(+) :: int \<Rightarrow> int \<Rightarrow> int" and fzero = 0 and ms_aos = 0
      and ms_soa = 0, OF h1 h2 h3 h4 h5 h6]
  have upt2: "[0..<2] = [0, Suc 0]" by (simp add: numeral_2_eq_2)
  have pool2: "timed False (history (projr (poolAllocationBenchmark 2 True)))
        = [Acquire, Construct 0, Construct 1, Destruct 0, Destruct 1, Release]"
    using am unfolding upt2 by simp
  have heap_out: "untimed False (heapAllocationBenchmark doubling 2)
        = [Print ''Heap Allocation'', Release]"
    using am by simp
  have heap_in: "count_list (timed False (heapAllocationBenchmark doubling 2)) Acquire
        = count_list (timed False (heapAllocationBenchmark doubling 2)) Release + 1"
    using am by simp
  show ?thesis using am h1 h2 h3 h4 h5 h6[of 3] pool2 heap_out heap_in by blast
qed


subsection \<open>C6: what a failed acquisition does\<close>

text \<open>
  Claim C6 says that a failed acquisition (a denied allocation, NUMA unavailable, a node
  that does not exist) surfaces as an error that ends only the one experiment, never as a
  crash, and that the other variants still run. In the programs a failed aligned
  allocation aborts the process at the assertion, and an unavailable NUMA makes \<open>main\<close>
  return 1; in both cases no variant runs at all.
\<close>

theorem failure_ends_program_counterexample:
  "\<not> failure_contained (main_align False (bump_alloc 4096 16) no_memory 7 5)
   \<and> \<not> failure_contained (main_numa (- 1) zero_block single_node)"
proof -
  have h1: "bump_alloc 4096 16 (sizeof_UnalignedStruct * NUM_STRUCTS) = Some 4112"
    by (simp add: bump_alloc_def align_up_def)
  have h2: "acquire_aligned no_memory = None"
    by (simp add: acquire_aligned_def no_memory_def)
  show ?thesis
    using h1 h2
    by (simp add: main_align_alloc_fails[where a = 4112] main_numa_unavailable failure_contained_def)
qed

text \<open>
  Claim C6, as amended. When the aligned allocation fails, the assertion of \<open>main\<close> aborts
  the program before either variant has run. When NUMA is not available, \<open>main\<close> prints a
  message and returns 1 before either variant has run. A node that does not exist raises
  nothing: the result of \<open>numa_run_on_node\<close> is dropped, and with NUMA available and the
  block allocated both variants run and \<open>main\<close> returns 0, whatever \<open>numa_run_on_node\<close>
  answers.
\<close>

theorem failure_ends_program_amended:
  "(op_new (sizeof_UnalignedStruct * NUM_STRUCTS) = Some a \<and> acquire_aligned aligned_alloc = None
      \<longrightarrow> main_align False op_new aligned_alloc ms1 ms2 =
            \<lparr>status = Aborted,
             events = [Print ''Testing cache line alignment impact...'', Acquire, Memset]\<rparr>)
   \<and> main_numa (- 1) numa_alloc_onnode numa_run_on_node =
        \<lparr>status = Returned 1, events = [PrintErr ''NUMA is not available on this system.'']\<rparr>
   \<and> (numa_available \<noteq> - 1 \<and> numa_alloc_onnode DATA_SIZE 0 = Some block
        \<and> length block = DATA_SIZE
      \<longrightarrow> main_numa numa_available numa_alloc_onnode numa_run_on_node =
            \<lparr>status = Returned 0,
             events = [Acquire, Print ''NUMA Memory Access Benchmark'',
                       BindNode 0, TimerStart, Pattern, TimerStop, Print ''Local access (Node 0)'',
                       BindNode 1, TimerStart, Pattern, TimerStop, Print ''Remote access (Node 1)'',
                       Release]\<rparr>)"
  using main_align_alloc_fails[where op_new = op_new and a = a and aligned_alloc = aligned_alloc
          and ndebug = False and ?ms1.0 = ms1 and ?ms2.0 = ms2]
        main_numa_unavailable[of numa_alloc_onnode numa_run_on_node]
        main_numa_success[where numa_available = numa_available
          and numa_alloc_onnode = numa_alloc_onnode and block = block
          and numa_run_on_node = numa_run_on_node]
  by simp

theorem failure_ends_program_amended_witness:
  "bump_alloc 4096 16 (sizeof_UnalignedStruct * NUM_STRUCTS) = Some 4112
   \<and> acquire_aligned no_memory = None
   \<and> main_align False (bump_alloc 4096 16) no_memory 7 5 =
        \<lparr>status = Aborted,
         events = [Print ''Testing cache line alignment impact...'', Acquire, Memset]\<rparr>
   \<and> single_node 1 = - 1
   \<and> zero_block DATA_SIZE 0 = Some (replicate DATA_SIZE 0)
   \<and> main_numa 0 zero_block single_node =
        \<lparr>status = Returned 0,
         events = [Acquire, Print ''NUMA Memory Access Benchmark'',
                   BindNode 0, TimerStart, Pattern, TimerStop, Print ''Local access (Node 0)'',
                   BindNode 1, TimerStart, Pattern, TimerStop, Print ''Remote access (Node 1)'',
                   Release]\<rparr>"
proof -
  have h1: "bump_alloc 4096 16 (sizeof_UnalignedStruct * NUM_STRUCTS) = Some 4112"
    by (simp add: bump_alloc_def align_up_def)
  have h2: "acquire_aligned no_memory = None"
    by (simp add: acquire_aligned_def no_memory_def)
  have h3: "single_node 1 = - 1" by (simp add: single_node_def)
  have h4: "zero_block DATA_SIZE 0 = Some (replicate DATA_SIZE 0)" by (simp add: zero_block_def)
  have h5: "length (replicate DATA_SIZE (0::byte)) = DATA_SIZE" by simp
  have h6: "(0::int) \<noteq> - 1" by simp
  note am = failure_ends_program_amended[where op_new = "bump_alloc 4096 16" and a = 4112
      and aligned_alloc = no_memory and ?ms1.0 = 7 and ?ms2.0 = 5
      and numa_available = 0 and numa_alloc_onnode = zero_block
      and block = "replicate DATA_SIZE 0" and numa_run_on_node = single_node]
  show ?thesis using am h1 h2 h3 h4 h5 h6 by blast
qed

subsection \<open>C7: the cache lines of the two counters\<close>


subsection \<open>C8: what the access patterns return\<close>

text \<open>
  Claim C8 says that every access pattern returns an accumulator to which every read
  contributes. \<open>benchmarkAccess\<close> returns the elapsed milliseconds instead: over sixteen
  fields equal to 1 it accumulates 1600 and returns the duration 7, the same value it
  returns over sixteen fields equal to 0.
\<close>

theorem accumulator_not_returned_counterexample:
  "\<not> isl (benchmarkAccess UnalignedStruct.data [\<lparr>UnalignedStruct.data = replicate 16 1\<rparr>] 1
            ''Unaligned access'' 7)
   \<and> returned (projr (benchmarkAccess UnalignedStruct.data
                  [\<lparr>UnalignedStruct.data = replicate 16 1\<rparr>] 1 ''Unaligned access'' 7))
     \<noteq> sint (printed_sum (projr (benchmarkAccess UnalignedStruct.data
                  [\<lparr>UnalignedStruct.data = replicate 16 1\<rparr>] 1 ''Unaligned access'' 7)))
   \<and> returned (projr (benchmarkAccess UnalignedStruct.data
                  [\<lparr>UnalignedStruct.data = replicate 16 1\<rparr>] 1 ''Unaligned access'' 7))
     = returned (projr (benchmarkAccess UnalignedStruct.data
                  [\<lparr>UnalignedStruct.data = replicate 16 0\<rparr>] 1 ''Unaligned access'' 7))"
proof -
  have one: "benchmarkAccess UnalignedStruct.data [\<lparr>UnalignedStruct.data = replicate 16 1\<rparr>] 1
            ''Unaligned access'' 7
      = Inr \<lparr>printed_label = ''Unaligned access'', printed_ms = 7, printed_sum = 1600,
             trace = [TimerStart, Pattern, TimerStop, Print ''Unaligned access''],
             returned = 7\<rparr>"
    by (subst benchmarkAccess_value)
       (simp_all add: field_total_def sum_list_replicate NUM_ITERATIONS_align_def)
  have zero: "benchmarkAccess UnalignedStruct.data [\<lparr>UnalignedStruct.data = replicate 16 0\<rparr>] 1
            ''Unaligned access'' 7
      = Inr \<lparr>printed_label = ''Unaligned access'', printed_ms = 7, printed_sum = 0,
             trace = [TimerStart, Pattern, TimerStop, Print ''Unaligned access''],
             returned = 7\<rparr>"
    by (subst benchmarkAccess_value)
       (simp_all add: field_total_def sum_list_replicate NUM_ITERATIONS_align_def)
  show ?thesis unfolding one zero by simp
qed

text \<open>
  Claim C8, as amended. \<open>benchmarkAccess\<close> adds every value it reads to its accumulator
  and prints it; what it returns is the elapsed duration. The two particle scans add every
  value they read to the sum they print, and return nothing. The NUMA pattern returns
  nothing and keeps no accumulator: it increments the bytes of the block in place, each
  byte once per iteration that touches it.
\<close>

theorem accumulator_printed_amended:
  assumes "count \<le> length arr"
      and "\<forall>e \<in> set (take count arr). length (data_of e) = 16"
      and "length block = DATA_SIZE"
  shows "(\<exists>r. benchmarkAccess data_of arr count label ms = Inr r
            \<and> returned r = ms \<and> printed_ms r = ms
            \<and> printed_sum r = word_of_int (int NUM_ITERATIONS_align
                                             * field_total (map data_of (take count arr))))
       \<and> (\<exists>r. runAoSBenchmark fadd fzero ms_aos = Inr r
            \<and> printed_sum r = foldl fadd fzero (replicate NUM_PARTICLES fzero))
       \<and> (\<exists>r. runSoABenchmark fadd fzero ms_soa = Inr r
            \<and> printed_sum r = foldl fadd fzero (replicate NUM_PARTICLES fzero))
       \<and> runBenchmark numa_run_on_node (Some block) node label_numa =
           Inr (Some (map (\<lambda>j. block ! j + word_of_nat (hits NUM_ITERATIONS_numa j))
                        [0..<DATA_SIZE]),
                [BindNode node, TimerStart, Pattern, TimerStop, Print label_numa])"
  by (simp add: benchmarkAccess_value[OF assms(1,2)] runAoSBenchmark_value runSoABenchmark_value
      runBenchmark_value[OF assms(3)])

theorem accumulator_printed_amended_witness:
  "(1::nat) \<le> length [\<lparr>UnalignedStruct.data = replicate 16 1\<rparr>]
   \<and> length (replicate DATA_SIZE (0::byte)) = DATA_SIZE
   \<and> (\<exists>r. benchmarkAccess UnalignedStruct.data [\<lparr>UnalignedStruct.data = replicate 16 1\<rparr>] 1
             ''Unaligned access'' 7 = Inr r
          \<and> returned r = 7 \<and> printed_sum r = 1600)
   \<and> (\<exists>block'. runBenchmark single_node (Some (replicate DATA_SIZE 0)) 1
                  ''Remote access (Node 1)'' = Inr (Some block',
                [BindNode 1, TimerStart, Pattern, TimerStop, Print ''Remote access (Node 1)'']))"
proof -
  let ?arr = "[\<lparr>UnalignedStruct.data = replicate 16 1\<rparr>]"
  have h1: "(1::nat) \<le> length ?arr" by simp
  have h2: "\<forall>e \<in> set (take 1 ?arr). length (UnalignedStruct.data e) = 16" by simp
  have h3: "length (replicate DATA_SIZE (0::byte)) = DATA_SIZE" by simp
  have tot: "int NUM_ITERATIONS_align * field_total (map UnalignedStruct.data (take 1 ?arr)) = 1600"
    by (simp add: field_total_def sum_list_replicate NUM_ITERATIONS_align_def)
  note am = accumulator_printed_amended[OF h1 h2 h3, where label = "''Unaligned access''"
      and ms = 7 and fadd = "(+) :: int \<Rightarrow> int \<Rightarrow> int" and fzero = 0 and ms_aos = 0
      and ms_soa = 0 and numa_run_on_node = single_node and node = 1
      and label_numa = "''Remote access (Node 1)''"]
  from am obtain r where r: "benchmarkAccess UnalignedStruct.data ?arr 1 ''Unaligned access'' 7 = Inr r"
      "returned r = 7"
      "printed_sum r = word_of_int (int NUM_ITERATIONS_align
                                      * field_total (map UnalignedStruct.data (take 1 ?arr)))"
    by blast
  have "printed_sum r = 1600" unfolding r(3) tot by simp
  then have a: "\<exists>r. benchmarkAccess UnalignedStruct.data ?arr 1 ''Unaligned access'' 7 = Inr r
          \<and> returned r = 7 \<and> printed_sum r = 1600"
    using r(1,2) by blast
  have b: "\<exists>block'. runBenchmark single_node (Some (replicate DATA_SIZE 0)) 1
                  ''Remote access (Node 1)'' = Inr (Some block',
                [BindNode 1, TimerStart, Pattern, TimerStop, Print ''Remote access (Node 1)''])"
    using am by blast
  show ?thesis using h1 h3 a b by blast
qed


subsection \<open>C9: the scan does not depend on the alignment of the struct\<close>

text \<open>
  Claim C9. For two arrays of the same count whose elements hold the same sixteen fields,
  \<open>benchmarkAccess<UnalignedStruct>\<close> and \<open>benchmarkAccess<AlignedStruct>\<close> accumulate the
  same sum, namely \<open>NUM_ITERATIONS\<close> times the sum of all fields of all elements, computed
  in \<open>long long\<close>; up to the \<open>NUM_STRUCTS\<close> elements of \<open>main\<close> the 64 bits hold that product
  exactly. For the arrays that \<open>main\<close> clears with \<open>memset\<close> the sum is 0.
\<close>

theorem scan_sum_layout_independent:
  assumes "map UnalignedStruct.data ua = map AlignedStruct.data al"
      and "length ua = count"
      and "\<forall>d \<in> set (map UnalignedStruct.data ua). length d = 16"
  shows "(\<exists>r1 r2. benchmarkAccess UnalignedStruct.data ua count l1 ms1 = Inr r1
            \<and> benchmarkAccess AlignedStruct.data al count l2 ms2 = Inr r2
            \<and> printed_sum r1 = printed_sum r2
            \<and> printed_sum r1 = word_of_int (int NUM_ITERATIONS_align
                                    * field_total (map UnalignedStruct.data ua))
            \<and> (count \<le> NUM_STRUCTS \<longrightarrow>
                 sint (printed_sum r1)
                   = int NUM_ITERATIONS_align * field_total (map UnalignedStruct.data ua)))
       \<and> (\<exists>r1 r2. benchmarkAccess UnalignedStruct.data
                     (replicate NUM_STRUCTS \<lparr>UnalignedStruct.data = replicate 16 0\<rparr>)
                     NUM_STRUCTS l1 ms1 = Inr r1
            \<and> benchmarkAccess AlignedStruct.data
                     (replicate NUM_STRUCTS \<lparr>AlignedStruct.data = replicate 16 0\<rparr>)
                     NUM_STRUCTS l2 ms2 = Inr r2
            \<and> printed_sum r1 = 0 \<and> printed_sum r2 = 0)"
proof -
  let ?T = "field_total (map UnalignedStruct.data ua)"
  have lal: "length al = count" using assms(1,2) by (metis length_map)
  have u16: "\<forall>e \<in> set (take count ua). length (UnalignedStruct.data e) = 16"
    using assms(2,3) by simp
  have a16: "\<forall>e \<in> set (take count al). length (AlignedStruct.data e) = 16"
  proof
    fix e assume "e \<in> set (take count al)"
    then have "AlignedStruct.data e \<in> set (map AlignedStruct.data al)" using lal by simp
    then show "length (AlignedStruct.data e) = 16" using assms(1,3) by metis
  qed
  have r1: "benchmarkAccess UnalignedStruct.data ua count l1 ms1 =
     Inr \<lparr>printed_label = l1, printed_ms = ms1,
          printed_sum = word_of_int (int NUM_ITERATIONS_align * ?T),
          trace = [TimerStart, Pattern, TimerStop, Print l1],
          returned = ms1\<rparr>"
    using benchmarkAccess_value[of count ua UnalignedStruct.data l1 ms1] u16 assms(2) by simp
  have r2: "benchmarkAccess AlignedStruct.data al count l2 ms2 =
     Inr \<lparr>printed_label = l2, printed_ms = ms2,
          printed_sum = word_of_int (int NUM_ITERATIONS_align * ?T),
          trace = [TimerStart, Pattern, TimerStop, Print l2],
          returned = ms2\<rparr>"
    using benchmarkAccess_value[of count al AlignedStruct.data l2 ms2] a16 lal assms(1) by simp
  have exact: "sint (word_of_int (int NUM_ITERATIONS_align * ?T) :: int64)
             = int NUM_ITERATIONS_align * ?T"
    if "count \<le> NUM_STRUCTS"
  proof -
    have "\<bar>?T\<bar> \<le> int count * 2 ^ 35"
      using field_total_bound[of "map UnalignedStruct.data ua"] assms(2,3) by simp
    also have "\<dots> \<le> 1000000 * 2 ^ 35" using that by (simp add: NUM_STRUCTS_def)
    finally have "\<bar>?T\<bar> \<le> 34359738368000000" by simp
    then have lo: "- (2 ^ 63) \<le> int NUM_ITERATIONS_align * ?T"
      and hi: "int NUM_ITERATIONS_align * ?T < 2 ^ 63"
      by (simp_all add: abs_le_iff NUM_ITERATIONS_align_def)
    show ?thesis by (rule sint_word_of_int_64[OF lo hi])
  qed
  have general: "\<exists>r1 r2. benchmarkAccess UnalignedStruct.data ua count l1 ms1 = Inr r1
            \<and> benchmarkAccess AlignedStruct.data al count l2 ms2 = Inr r2
            \<and> printed_sum r1 = printed_sum r2
            \<and> printed_sum r1 = word_of_int (int NUM_ITERATIONS_align * ?T)
            \<and> (count \<le> NUM_STRUCTS \<longrightarrow> sint (printed_sum r1) = int NUM_ITERATIONS_align * ?T)"
    using r1 r2 exact by simp
  have zero: "\<exists>r1 r2. benchmarkAccess UnalignedStruct.data
                     (replicate NUM_STRUCTS \<lparr>UnalignedStruct.data = replicate 16 0\<rparr>)
                     NUM_STRUCTS l1 ms1 = Inr r1
            \<and> benchmarkAccess AlignedStruct.data
                     (replicate NUM_STRUCTS \<lparr>AlignedStruct.data = replicate 16 0\<rparr>)
                     NUM_STRUCTS l2 ms2 = Inr r2
            \<and> printed_sum r1 = 0 \<and> printed_sum r2 = 0"
    by (simp add: benchmarkAccess_zero_unaligned benchmarkAccess_zero_aligned)
  show ?thesis using general zero by (rule conjI)
qed

theorem scan_sum_layout_independent_witness:
  "map UnalignedStruct.data [\<lparr>UnalignedStruct.data = replicate 16 3\<rparr>]
     = map AlignedStruct.data [\<lparr>AlignedStruct.data = replicate 16 3\<rparr>]
   \<and> length [\<lparr>UnalignedStruct.data = replicate 16 3\<rparr>] = 1
   \<and> list_all (\<lambda>d. length d = 16)
         (map UnalignedStruct.data [\<lparr>UnalignedStruct.data = replicate 16 3\<rparr>])
   \<and> (\<exists>r1 r2. benchmarkAccess UnalignedStruct.data [\<lparr>UnalignedStruct.data = replicate 16 3\<rparr>]
                  1 ''Unaligned access'' 7 = Inr r1
            \<and> benchmarkAccess AlignedStruct.data [\<lparr>AlignedStruct.data = replicate 16 3\<rparr>]
                  1 ''Aligned access'' 5 = Inr r2
            \<and> printed_sum r1 = printed_sum r2
            \<and> sint (printed_sum r1) = 4800)"
proof -
  let ?ua = "[\<lparr>UnalignedStruct.data = replicate 16 3\<rparr>]"
  let ?al = "[\<lparr>AlignedStruct.data = replicate 16 3\<rparr>]"
  have h1: "map UnalignedStruct.data ?ua = map AlignedStruct.data ?al" by simp
  have h2: "length ?ua = 1" by simp
  have h3: "\<forall>d \<in> set (map UnalignedStruct.data ?ua). length d = 16" by simp
  have tot: "int NUM_ITERATIONS_align * field_total (map UnalignedStruct.data ?ua) = 4800"
    by (simp add: field_total_def NUM_ITERATIONS_align_def sum_list_replicate)
  have small: "(1::nat) \<le> NUM_STRUCTS" by (simp add: NUM_STRUCTS_def)
  from scan_sum_layout_independent[OF h1 h2 h3, of "''Unaligned access''" 7 "''Aligned access''" 5]
  obtain r1 r2 where
    "benchmarkAccess UnalignedStruct.data ?ua 1 ''Unaligned access'' 7 = Inr r1"
    "benchmarkAccess AlignedStruct.data ?al 1 ''Aligned access'' 5 = Inr r2"
    "printed_sum r1 = printed_sum r2"
    "sint (printed_sum r1) = 4800"
    using tot small by auto
  then show ?thesis using h1 h2 by simp
qed

subsection \<open>C10: the NUMA loop stays inside the block\<close>

text \<open>
  Claim C10. The NUMA access loop indexes the block at \<open>i % DATA_SIZE\<close>, which lies in
  \<open>[0, DATA_SIZE)\<close> for every \<open>i\<close>; so on the acquired block of \<open>DATA_SIZE\<close> bytes the loop
  runs to its end without an access outside the block, for any iteration count, and the
  block keeps its size.
\<close>

theorem numa_index_in_block:
  assumes "length block = DATA_SIZE"
  shows "k mod DATA_SIZE < DATA_SIZE
       \<and> (\<exists>block'. access_loop n (Some block) = Inr (Some block') \<and> length block' = DATA_SIZE)"
  using access_loop_value[OF assms, of n] by (simp add: DATA_SIZE_def)

theorem numa_index_in_block_witness:
  "length (replicate DATA_SIZE (0::byte)) = DATA_SIZE
   \<and> (7 * DATA_SIZE + 3) mod DATA_SIZE < DATA_SIZE
   \<and> (\<exists>block'. access_loop 5 (Some (replicate DATA_SIZE 0)) = Inr (Some block')
                \<and> length block' = DATA_SIZE)"
  using numa_index_in_block[of "replicate DATA_SIZE 0" "7 * DATA_SIZE + 3" 5] by simp

end
